theory Spec2Isabelle
  imports Complex_Main "HOL-Library.Word"
begin

section \<open>Data model of mm\_json.h\<close>

text \<open>
  A source buffer is a list of bytes (\<open>string\<close>); a \<open>const char *\<close> into it is an
  offset, and the null pointer is \<open>None\<close>. A read outside the list sees the byte 0
  (the terminator of a C string).
\<close>

definition byte_at :: "string \<Rightarrow> nat \<Rightarrow> char" where
  "byte_at buf p = (if p < length buf then buf ! p else CHR 0x00)"

text \<open>\<open>enum json_token_type\<close>\<close>

datatype json_token_type =
  JSON_NONE | JSON_OBJECT | JSON_ARRAY | JSON_NUMBER | JSON_STRING
  | JSON_TRUE | JSON_FALSE | JSON_NULL | JSON_MAX

text \<open>\<open>struct json_token\<close>; the field \<open>type\<close> is called \<open>ttype\<close> here.\<close>

record json_token =
  ttype :: json_token_type
  str :: "nat option"
  len :: int
  children :: int
  sub :: int

text \<open>\<open>enum json_status\<close>\<close>

datatype json_status = JSON_OK | JSON_INVAL | JSON_OUT_OF_TOKEN | JSON_PARSING_ERROR

text \<open>\<open>enum json_parser_states\<close>\<close>

datatype json_parser_states =
  JSON_STATE_FAILED | JSON_STATE_LOOP | JSON_STATE_SEP | JSON_STATE_UP | JSON_STATE_DOWN
  | JSON_STATE_QUP | JSON_STATE_QDOWN | JSON_STATE_ESC | JSON_STATE_UNESC | JSON_STATE_BARE
  | JSON_STATE_UNBARE | JSON_STATE_UTF8_2 | JSON_STATE_UTF8_3 | JSON_STATE_UTF8_4
  | JSON_STATE_UTF8_NEXT

text \<open>\<open>enum json_nuber_states\<close>\<close>

datatype json_nuber_states =
  JSON_STATE_NUM_FAILED | JSON_STATE_NUM_LOOP | JSON_STATE_NUM_FLT | JSON_STATE_NUM_EXP
  | JSON_STATE_NUM_BREAK

text \<open>
  The field \<open>go\<close> of an iterator points to one of the global jump tables, or is null.
\<close>

datatype go_table = GO_STRUCT | GO_BARE | GO_STRING | GO_UTF8 | GO_ESC

text \<open>\<open>struct json_iter\<close>; the field \<open>len\<close> is called \<open>ilen\<close> here.\<close>

record json_iter =
  ilen :: int
  err :: "16 word"
  depth :: "32 word"
  go :: "go_table option"
  src :: "nat option"

definition JSON_ITER_NULL :: json_iter where
  "JSON_ITER_NULL = \<lparr>ilen = 0, err = 0, depth = 0, go = None, src = None\<rparr>"

definition JSON_TOKEN_NULL :: json_token where
  "JSON_TOKEN_NULL = \<lparr>ttype = JSON_NONE, str = None, len = 0, children = 0, sub = 0\<rparr>"

section \<open>The jump tables, as \<open>json_init\<close> fills them\<close>

text \<open>
  Each table starts zeroed (\<open>JSON_STATE_FAILED\<close>); later assignments of \<open>json_init\<close>
  override earlier ones, so the single entries are tested before the ranges.
\<close>

definition json_go_struct :: "char \<Rightarrow> json_parser_states" where
  "json_go_struct c =
    (if c = CHR ''n'' \<or> c = CHR ''f'' \<or> c = CHR ''t'' \<or> c = CHR ''-'' then JSON_STATE_BARE
     else if c = CHR ''}'' \<or> c = CHR '']'' then JSON_STATE_DOWN
     else if c = CHR ''{'' \<or> c = CHR ''['' then JSON_STATE_UP
     else if c = CHR '','' then JSON_STATE_LOOP
     else if c = CHR ''='' \<or> c = CHR '':'' then JSON_STATE_SEP
     else if c = CHR 0x22 then JSON_STATE_QUP
     else if c = CHR '' '' \<or> c = CHR 0x0A \<or> c = CHR 0x0D \<or> c = CHR 0x09 then JSON_STATE_LOOP
     else if 48 \<le> (of_char c :: nat) \<and> (of_char c :: nat) \<le> 57 then JSON_STATE_BARE
     else JSON_STATE_FAILED)"

definition json_go_bare :: "char \<Rightarrow> json_parser_states" where
  "json_go_bare c =
    (if c = CHR ''}'' \<or> c = CHR '']'' \<or> c = CHR '','' \<or> c = CHR 0x0A \<or> c = CHR 0x0D
        \<or> c = CHR 0x09 then JSON_STATE_UNBARE
     else if 32 \<le> (of_char c :: nat) \<and> (of_char c :: nat) \<le> 126 then JSON_STATE_LOOP
     else JSON_STATE_FAILED)"

definition json_go_string :: "char \<Rightarrow> json_parser_states" where
  "json_go_string c =
    (if c = CHR 0x22 then JSON_STATE_QDOWN
     else if c = CHR 0x5C then JSON_STATE_ESC
     else if 240 \<le> (of_char c :: nat) \<and> (of_char c :: nat) \<le> 247 then JSON_STATE_UTF8_4
     else if 224 \<le> (of_char c :: nat) \<and> (of_char c :: nat) \<le> 239 then JSON_STATE_UTF8_3
     else if 192 \<le> (of_char c :: nat) \<and> (of_char c :: nat) \<le> 223 then JSON_STATE_UTF8_2
     else if 32 \<le> (of_char c :: nat) \<and> (of_char c :: nat) \<le> 126 then JSON_STATE_LOOP
     else JSON_STATE_FAILED)"

definition json_go_utf8 :: "char \<Rightarrow> json_parser_states" where
  "json_go_utf8 c =
    (if 128 \<le> (of_char c :: nat) \<and> (of_char c :: nat) \<le> 191 then JSON_STATE_UTF8_NEXT
     else JSON_STATE_FAILED)"

definition json_go_esc :: "char \<Rightarrow> json_parser_states" where
  "json_go_esc c =
    (if c = CHR 0x22 \<or> c = CHR 0x5C \<or> c = CHR ''/'' \<or> c = CHR ''b'' \<or> c = CHR ''f''
        \<or> c = CHR ''n'' \<or> c = CHR ''r'' \<or> c = CHR ''t'' \<or> c = CHR ''u''
     then JSON_STATE_UNESC else JSON_STATE_FAILED)"

text \<open>
  \<open>json_init\<close> stores \<open>JSON_STATE_LOOP\<close> (the value 1) for the digits; \<open>json_convert\<close>
  reads it as \<open>JSON_STATE_NUM_LOOP\<close>, which has the same value.

  The tables are global arrays that start zeroed, and \<open>json_init\<close> fills them once;
  \<open>json_begin\<close> calls it, \<open>json_convert\<close> does not. The definitions of this section
  are the tables after \<open>json_init\<close> has run, so everything below about
  \<open>json_convert\<close> is about a call made after the first \<open>json_begin\<close> (or after an
  explicit \<open>json_init\<close>). Before that every entry of \<open>json_go_num\<close> is
  \<open>JSON_STATE_NUM_FAILED\<close> and the loop of \<open>json_convert\<close> returns \<open>JSON_NONE\<close> at
  the first byte of every token.
\<close>

definition json_go_num :: "char \<Rightarrow> json_nuber_states" where
  "json_go_num c =
    (if c = CHR '' '' \<or> c = CHR 0x0A \<or> c = CHR 0x09 \<or> c = CHR 0x0D then JSON_STATE_NUM_BREAK
     else if c = CHR ''e'' \<or> c = CHR ''E'' then JSON_STATE_NUM_EXP
     else if c = CHR ''.'' then JSON_STATE_NUM_FLT
     else if c = CHR ''-'' \<or> c = CHR ''+'' then JSON_STATE_NUM_LOOP
     else if 48 \<le> (of_char c :: nat) \<and> (of_char c :: nat) \<le> 57 then JSON_STATE_NUM_LOOP
     else JSON_STATE_NUM_FAILED)"

text \<open>The lookup \<open>tbl[c]\<close> through the pointer \<open>iter.go\<close>.\<close>

fun tbl :: "go_table \<Rightarrow> char \<Rightarrow> json_parser_states" where
  "tbl GO_STRUCT c = json_go_struct c"
| "tbl GO_BARE c = json_go_bare c"
| "tbl GO_STRING c = json_go_string c"
| "tbl GO_UTF8 c = json_go_utf8 c"
| "tbl GO_ESC c = json_go_esc c"

section \<open>Helpers\<close>

text \<open>\<open>json_type\<close>, on a non-null token pointer.\<close>

definition json_type :: "string \<Rightarrow> json_token \<Rightarrow> json_token_type" where
  "json_type buf tok =
    (case str tok of
       None \<Rightarrow> JSON_NONE
     | Some p \<Rightarrow>
        if len tok = 0 then JSON_NONE
        else if byte_at buf p = CHR ''{'' then JSON_OBJECT
        else if byte_at buf p = CHR ''['' then JSON_ARRAY
        else if byte_at buf p = CHR 0x22 then JSON_STRING
        else if byte_at buf p = CHR ''t'' then JSON_TRUE
        else if byte_at buf p = CHR ''f'' then JSON_FALSE
        else if byte_at buf p = CHR ''n'' then JSON_NULL
        else JSON_NUMBER)"

text \<open>
  \<open>json_deq\<close>; it is only called on tokens of type \<open>JSON_STRING\<close>, whose \<open>str\<close> is
  not null.
\<close>

definition json_deq :: "string \<Rightarrow> json_token \<Rightarrow> json_token" where
  "json_deq buf tok =
    (case str tok of
       None \<Rightarrow> tok
     | Some p \<Rightarrow>
        if byte_at buf p = CHR 0x22 \<and> len tok \<ge> 2
        then tok\<lparr>str := Some (p + 1), len := len tok - 2\<rparr> else tok)"

text \<open>
  The pointer difference \<open>cur - obj->str\<close>. With \<open>obj->str\<close> null the C value is not
  defined; the model takes the null pointer as offset 0.
\<close>

definition ptr_diff :: "nat \<Rightarrow> nat option \<Rightarrow> int" where
  "ptr_diff cur s = int cur - (case s of None \<Rightarrow> 0 | Some p \<Rightarrow> int p)"

text \<open>The common tail \<open>obj->type = json_type(obj); if (obj->type == JSON_STRING) json_deq(obj);\<close>\<close>

definition set_type :: "string \<Rightarrow> json_token \<Rightarrow> json_token" where
  "set_type buf obj =
    (let obj1 = obj\<lparr>ttype := json_type buf obj\<rparr>
     in if ttype obj1 = JSON_STRING then json_deq buf obj1 else obj1)"

section \<open>Utilities\<close>

text \<open>
  \<open>tok->str[i]\<close>. Reading through a null \<open>str\<close> is a fault in C; the model reads from
  offset 0 there, as \<open>ptr_diff\<close> does.
\<close>

definition tok_byte :: "string \<Rightarrow> json_token \<Rightarrow> nat \<Rightarrow> char" where
  "tok_byte buf tok i = byte_at buf ((case str tok of None \<Rightarrow> 0 | Some p \<Rightarrow> p) + i)"

definition is_digit :: "char \<Rightarrow> bool" where
  "is_digit c = (48 \<le> (of_char c :: nat) \<and> (of_char c :: nat) \<le> 57)"

text \<open>
  \<open>json_number\<close> is \<open>double\<close>; the model computes with real numbers, so rounding is
  left out. \<open>json_ipow\<close> multiplies machine integers (\<open>int base\<close>, \<open>long res\<close>); the
  model does not wrap them. So the number the model of \<open>json_convert\<close> returns is the
  exact value, which the source rounds (\<open>json_stoi\<close>, \<open>json_stof\<close>) and, for
  exponents from 16 on, overflows (\<open>json_ipow\<close>). The statements below are about the
  returned kind and about which token a query selects, never about the converted value.
\<close>

type_synonym json_number = real

function ipow_loop :: "int \<Rightarrow> int \<Rightarrow> nat \<Rightarrow> int" where
  "ipow_loop res base exp' =
    (if exp' \<noteq> 0 then
       ipow_loop (if exp' mod 2 = 1 then res * base else res) (base * base) (exp' div 2)
     else res)"
  by pat_completeness auto
termination
  by (relation "measure (\<lambda>(res, base, exp'). exp')") auto

definition json_ipow :: "int \<Rightarrow> nat \<Rightarrow> json_number" where
  "json_ipow base exp' = of_int (ipow_loop 1 base exp')"

text \<open>The \<open>for\<close> loop of \<open>json_stoi\<close>.\<close>

function stoi_loop :: "string \<Rightarrow> json_token \<Rightarrow> int \<Rightarrow> json_number \<Rightarrow> json_number" where
  "stoi_loop buf tok i n =
    (if i < len tok then
       stoi_loop buf tok (i + 1)
         (if is_digit (tok_byte buf tok (nat i))
          then (n * 10) + of_nat (of_char (tok_byte buf tok (nat i))) - 48 else n)
     else n)"
  by pat_completeness auto
termination
  by (relation "measure (\<lambda>(buf, tok, i, n). nat (len tok - i))") auto

definition json_stoi :: "string \<Rightarrow> json_token \<Rightarrow> json_number" where
  "json_stoi buf tok =
    (if str tok = None \<or> len tok = 0 then 0
     else
       let off = (if tok_byte buf tok 0 = CHR ''-'' \<or> tok_byte buf tok 0 = CHR ''+''
                  then 1 else 0);
           neg = (tok_byte buf tok 0 = CHR ''-'');
           n = stoi_loop buf tok off 0
       in if neg then - n else n)"

text \<open>The \<open>for\<close> loop of \<open>json_stof\<close>.\<close>

function stof_loop ::
  "string \<Rightarrow> json_token \<Rightarrow> int \<Rightarrow> json_number \<Rightarrow> json_number \<Rightarrow> json_number"
where
  "stof_loop buf tok i n f =
    (if i < len tok then
       (if is_digit (tok_byte buf tok (nat i))
        then stof_loop buf tok (i + 1)
               (n + (of_nat (of_char (tok_byte buf tok (nat i))) - 48) * f) (f * (1 / 10))
        else stof_loop buf tok (i + 1) n f)
     else n)"
  by pat_completeness auto
termination
  by (relation "measure (\<lambda>(buf, tok, i, n, f). nat (len tok - i))") auto

definition json_stof :: "string \<Rightarrow> json_token \<Rightarrow> json_number" where
  "json_stof buf tok =
    (if str tok = None \<or> len tok = 0 then 0 else stof_loop buf tok 0 0 (1 / 10))"

text \<open>
  \<open>json_lcmp\<close>: the token lies in \<open>buf\<close>, the string \<open>s\<close> in \<open>sbuf\<close>. The token
  pointer is not null.
\<close>

function lcmp_loop :: "string \<Rightarrow> string \<Rightarrow> json_token \<Rightarrow> nat \<Rightarrow> int \<Rightarrow> int \<Rightarrow> int" where
  "lcmp_loop buf sbuf tok s n i =
    (if i < len tok \<and> i < n then
       (if tok_byte buf tok (nat i) \<noteq> byte_at sbuf (s + nat i) then 1
        else lcmp_loop buf sbuf tok s n (i + 1))
     else 0)"
  by pat_completeness auto
termination
  by (relation "measure (\<lambda>(buf, sbuf, tok, s, n, i). nat (n - i))") auto

definition json_lcmp :: "string \<Rightarrow> string \<Rightarrow> json_token \<Rightarrow> nat option \<Rightarrow> int \<Rightarrow> int" where
  "json_lcmp buf sbuf tok s n =
    (case s of
       None \<Rightarrow> 1
     | Some p \<Rightarrow> if n = 0 then 1 else lcmp_loop buf sbuf tok p n 0)"

text \<open>
  \<open>json_convert\<close>. The three tokens \<open>nums[INT]\<close>, \<open>nums[FLT]\<close>, \<open>nums[EXP]\<close> are a
  triple and \<open>write\<close> is the slot it points to (\<open>S_INT\<close>, \<open>S_FLT\<close>, \<open>S_EXP\<close> for
  the indices \<open>INT\<close>, \<open>FLT\<close>, \<open>EXP\<close>). The loop returns \<open>None\<close> where the
  source returns \<open>JSON_NONE\<close> from inside the loop, and the triple, \<open>write\<close> and
  \<open>cur\<close> when the loop ends.
\<close>

datatype num_slot = S_INT | S_FLT | S_EXP

type_synonym nums = "json_token \<times> json_token \<times> json_token"

fun slot :: "nums \<Rightarrow> num_slot \<Rightarrow> json_token" where
  "slot (a, b, c) S_INT = a"
| "slot (a, b, c) S_FLT = b"
| "slot (a, b, c) S_EXP = c"

fun slot_upd :: "nums \<Rightarrow> num_slot \<Rightarrow> json_token \<Rightarrow> nums" where
  "slot_upd (a, b, c) S_INT t = (t, b, c)"
| "slot_upd (a, b, c) S_FLT t = (a, t, c)"
| "slot_upd (a, b, c) S_EXP t = (a, b, t)"

function convert_loop ::
  "string \<Rightarrow> nums \<Rightarrow> num_slot \<Rightarrow> nat \<Rightarrow> int \<Rightarrow> (nums \<times> num_slot \<times> nat) option"
where
  "convert_loop buf ns w cur n =
    (if n = 0 then Some (ns, w, cur)
     else
       (case json_go_num (byte_at buf cur) of
          JSON_STATE_NUM_FAILED \<Rightarrow> None
        | JSON_STATE_NUM_FLT \<Rightarrow>
            if str (slot ns S_FLT) \<noteq> None then None
            else if str (slot ns S_EXP) \<noteq> None then None
            else
              let ns1 = slot_upd ns w ((slot ns w)\<lparr>len := ptr_diff cur (str (slot ns w))\<rparr>);
                  ns2 = slot_upd ns1 S_FLT ((slot ns1 S_FLT)\<lparr>str := Some (cur + 1)\<rparr>)
              in convert_loop buf ns2 S_FLT (cur + 1) (n - 1)
        | JSON_STATE_NUM_EXP \<Rightarrow>
            if str (slot ns S_EXP) \<noteq> None then None
            else
              let ns1 = slot_upd ns w ((slot ns w)\<lparr>len := ptr_diff cur (str (slot ns w))\<rparr>);
                  ns2 = slot_upd ns1 S_EXP ((slot ns1 S_EXP)\<lparr>str := Some (cur + 1)\<rparr>)
              in convert_loop buf ns2 S_EXP (cur + 1) (n - 1)
        | JSON_STATE_NUM_BREAK \<Rightarrow> convert_loop buf ns w (cur + 1) (1 - 1)
        | JSON_STATE_NUM_LOOP \<Rightarrow> convert_loop buf ns w (cur + 1) (n - 1)))"
  by pat_completeness auto

lemma go_num_nonzero:
  "json_go_num (byte_at buf p) = JSON_STATE_NUM_LOOP \<Longrightarrow> p < length buf"
  "json_go_num (byte_at buf p) = JSON_STATE_NUM_FLT \<Longrightarrow> p < length buf"
  "json_go_num (byte_at buf p) = JSON_STATE_NUM_EXP \<Longrightarrow> p < length buf"
  "json_go_num (byte_at buf p) = JSON_STATE_NUM_BREAK \<Longrightarrow> p < length buf"
  by (auto simp: byte_at_def json_go_num_def split: if_splits)

termination convert_loop
  by (relation "measure (\<lambda>(buf, ns, w, cur, n). length buf - cur)")
    (auto dest: go_num_nonzero intro!: diff_less_mono2)

text \<open>
  The result is the returned kind and the content of \<open>*num\<close>, which is \<open>num\<close> before
  the call. The pointers \<open>num\<close> and \<open>tok\<close> are not null.
\<close>

definition json_convert ::
  "string \<Rightarrow> json_number \<Rightarrow> json_token \<Rightarrow> json_token_type \<times> json_number"
where
  "json_convert buf num tok =
    (case str tok of
       None \<Rightarrow> (JSON_NONE, num)
     | Some p \<Rightarrow>
        if len tok = 0 then (JSON_NONE, num)
        else
          (case convert_loop buf
                  (JSON_TOKEN_NULL\<lparr>str := str tok\<rparr>, JSON_TOKEN_NULL, JSON_TOKEN_NULL)
                  S_INT p (len tok) of
             None \<Rightarrow> (JSON_NONE, num)
           | Some (ns, w, cur) \<Rightarrow>
              let ns1 = slot_upd ns w ((slot ns w)\<lparr>len := ptr_diff cur (str (slot ns w))\<rparr>);
                  i = json_stoi buf (slot ns1 S_INT);
                  f = json_stof buf (slot ns1 S_FLT);
                  e = json_stoi buf (slot ns1 S_EXP);
                  p0 = json_ipow 10 (nat \<lfloor>if e < 0 then - e else e\<rfloor>);
                  p1 = (if e < 0 then 1 / p0 else p0)
              in (JSON_NUMBER, (i + (if i < 0 then - f else f)) * p1)))"

text \<open>
  \<open>json_cpy\<close>. The destination is the memory from \<open>dst\<close> on, a function from the
  index to the byte; the result is the returned count and that memory. The pointers
  \<open>dst\<close> and \<open>tok\<close> are not null.
\<close>

function cpy_loop :: "string \<Rightarrow> (int \<Rightarrow> char) \<Rightarrow> json_token \<Rightarrow> int \<Rightarrow> int \<Rightarrow> (int \<Rightarrow> char)" where
  "cpy_loop buf dst tok i siz =
    (if i < siz then cpy_loop buf (dst(i := tok_byte buf tok (nat i))) tok (i + 1) siz
     else dst)"
  by pat_completeness auto
termination
  by (relation "measure (\<lambda>(buf, dst, tok, i, siz). nat (siz - i))") auto

definition json_cpy ::
  "string \<Rightarrow> (int \<Rightarrow> char) \<Rightarrow> int \<Rightarrow> json_token \<Rightarrow> int \<times> (int \<Rightarrow> char)"
where
  "json_cpy buf dst max' tok =
    (if max' = 0 then (0, dst)
     else
       let ret = (if max' < len tok + 1 then max' else len tok);
           siz = (if max' < len tok + 1 then max' - 1 else len tok);
           dst1 = cpy_loop buf dst tok 0 siz
       in (ret, dst1(siz := CHR 0x00)))"

section \<open>Tokenizer\<close>

definition json_begin :: "nat option \<Rightarrow> int \<Rightarrow> json_iter" where
  "json_begin s l = JSON_ITER_NULL\<lparr>src := s, ilen := l\<rparr>"

text \<open>The label \<open>l_end\<close> of \<open>json_read\<close>; \<open>c\<close> is the last byte read.\<close>

definition l_end :: "string \<Rightarrow> json_iter \<Rightarrow> json_token \<Rightarrow> nat \<Rightarrow> char \<Rightarrow> json_iter \<times> json_token" where
  "l_end buf iter obj cur c =
    (if depth iter = 0 then
       (iter\<lparr>src := None, ilen := 0\<rparr>,
        if str obj \<noteq> None then
          set_type buf (obj\<lparr>len := (if c = CHR ''}'' then ptr_diff cur (str obj) - 1
                                    else ptr_diff cur (str obj))\<rparr>)
        else obj)
     else (iter, obj))"

text \<open>The label \<open>l_yield\<close> of \<open>json_read\<close>.\<close>

definition l_yield :: "string \<Rightarrow> json_iter \<Rightarrow> json_token \<Rightarrow> nat \<Rightarrow> int \<Rightarrow> json_iter \<times> json_token" where
  "l_yield buf iter obj cur n =
    (iter\<lparr>src := Some (cur + 1), ilen := n - 1\<rparr>, set_type buf obj)"

text \<open>
  The table an iterator is in: \<open>json_read\<close> replaces a null \<open>go\<close> by \<open>json_go_struct\<close>
  before its loop.
\<close>

definition cur_tbl :: "json_iter \<Rightarrow> go_table" where
  "cur_tbl iter = (case go iter of None \<Rightarrow> GO_STRUCT | Some g \<Rightarrow> g)"

text \<open>
  The \<open>for\<close> loop of \<open>json_read\<close>, one byte per call: \<open>cur\<close> and \<open>n\<close> are the loop
  variables \<open>cur\<close> and \<open>len\<close>, \<open>u\<close> is \<open>utf8_remain\<close> and \<open>c\<close> the byte of the
  previous round. In the case \<open>JSON_STATE_UNBARE\<close> below depth 2 the source steps back
  (\<open>cur--; len++\<close>) before the loop header steps forward, so the same byte is read again.
\<close>

function read_loop ::
  "string \<Rightarrow> json_iter \<Rightarrow> json_token \<Rightarrow> nat \<Rightarrow> int \<Rightarrow> int \<Rightarrow> char \<Rightarrow> json_iter \<times> json_token"
where
  "read_loop buf iter obj cur n u c0 =
    (if n = 0 then l_end buf iter obj cur c0
     else
       let c = byte_at buf cur in
       if c = CHR 0x00 then l_end buf iter obj cur c
       else if depth iter = 1 \<and> (c = CHR ''}'' \<or> c = CHR '']'') \<and> n = 1 \<and> str obj = None
       then (iter\<lparr>src := None, ilen := 0, depth := 0\<rparr>, obj)
       else
         (case tbl (cur_tbl iter) c of
            JSON_STATE_FAILED \<Rightarrow> (iter\<lparr>err := 1\<rparr>, obj)
          | JSON_STATE_LOOP \<Rightarrow> read_loop buf iter obj (cur + 1) (n - 1) u c
          | JSON_STATE_SEP \<Rightarrow>
              read_loop buf iter
                (if depth iter = 2 then obj\<lparr>children := children obj - 1\<rparr> else obj)
                (cur + 1) (n - 1) u c
          | JSON_STATE_UP \<Rightarrow>
              (let obj1 = (if depth iter > 1 then
                             (if depth iter = 2 then obj\<lparr>children := children obj + 1\<rparr> else obj)
                               \<lparr>sub := sub obj + 1\<rparr>
                           else obj);
                   obj2 = (if depth iter = 1 then obj1\<lparr>str := Some cur\<rparr> else obj1)
               in read_loop buf (iter\<lparr>depth := depth iter + 1\<rparr>) obj2 (cur + 1) (n - 1) u c)
          | JSON_STATE_DOWN \<Rightarrow>
              (let iter1 = iter\<lparr>depth := depth iter - 1\<rparr>
               in if depth iter1 = 1 then
                    (let obj1 = obj\<lparr>len := ptr_diff cur (str obj) + 1\<rparr>
                     in if depth iter1 \<noteq> 1 \<or> str obj1 = None
                        then read_loop buf iter1 obj1 (cur + 1) (n - 1) u c
                        else l_yield buf iter1 obj1 cur n)
                  else read_loop buf iter1 obj (cur + 1) (n - 1) u c)
          | JSON_STATE_QUP \<Rightarrow>
              (let iter1 = iter\<lparr>go := Some GO_STRING\<rparr>;
                   obj1 = (if depth iter1 \<le> 1 then obj\<lparr>str := Some cur\<rparr>
                           else (if depth iter1 = 2 then obj\<lparr>children := children obj + 1\<rparr>
                                 else obj)\<lparr>sub := sub obj + 1\<rparr>)
               in read_loop buf iter1 obj1 (cur + 1) (n - 1) u c)
          | JSON_STATE_QDOWN \<Rightarrow>
              (let iter1 = iter\<lparr>go := Some GO_STRUCT\<rparr>
               in if depth iter1 \<le> 1 then
                    (let obj1 = obj\<lparr>len := ptr_diff cur (str obj) + 1\<rparr>
                     in if depth iter1 > 1 \<or> str obj1 = None
                        then read_loop buf iter1 obj1 (cur + 1) (n - 1) u c
                        else l_yield buf iter1 obj1 cur n)
                  else read_loop buf iter1 obj (cur + 1) (n - 1) u c)
          | JSON_STATE_ESC \<Rightarrow>
              read_loop buf (iter\<lparr>go := Some GO_ESC\<rparr>) obj (cur + 1) (n - 1) u c
          | JSON_STATE_UNESC \<Rightarrow>
              read_loop buf (iter\<lparr>go := Some GO_STRING\<rparr>) obj (cur + 1) (n - 1) u c
          | JSON_STATE_BARE \<Rightarrow>
              (let obj1 = (if depth iter \<le> 1 then obj\<lparr>str := Some cur\<rparr>
                           else (if depth iter = 2 then obj\<lparr>children := children obj + 1\<rparr>
                                 else obj)\<lparr>sub := sub obj + 1\<rparr>)
               in read_loop buf (iter\<lparr>go := Some GO_BARE\<rparr>) obj1 (cur + 1) (n - 1) u c)
          | JSON_STATE_UNBARE \<Rightarrow>
              (let iter1 = iter\<lparr>go := Some GO_STRUCT\<rparr>
               in if depth iter1 \<le> 1 then
                    (let obj1 = obj\<lparr>len := ptr_diff cur (str obj)\<rparr>;
                         obj2 = obj1\<lparr>ttype := json_type buf obj1\<rparr>;
                         obj3 = (if ttype obj2 = JSON_STRING then json_deq buf obj2 else obj2)
                     in (iter1\<lparr>src := Some cur, ilen := n\<rparr>, obj3))
                  else read_loop buf iter1 obj cur n u c)
          | JSON_STATE_UTF8_2 \<Rightarrow>
              read_loop buf (iter\<lparr>go := Some GO_UTF8\<rparr>) obj (cur + 1) (n - 1) 1 c
          | JSON_STATE_UTF8_3 \<Rightarrow>
              read_loop buf (iter\<lparr>go := Some GO_UTF8\<rparr>) obj (cur + 1) (n - 1) 2 c
          | JSON_STATE_UTF8_4 \<Rightarrow>
              read_loop buf (iter\<lparr>go := Some GO_UTF8\<rparr>) obj (cur + 1) (n - 1) 3 c
          | JSON_STATE_UTF8_NEXT \<Rightarrow>
              read_loop buf (if u - 1 = 0 then iter\<lparr>go := Some GO_STRING\<rparr> else iter) obj
                (cur + 1) (n - 1) (u - 1) c))"
  by pat_completeness auto

lemma byte_at_nonzero: "byte_at buf p \<noteq> CHR 0x00 \<Longrightarrow> p < length buf"
  by (simp add: byte_at_def split: if_splits)

lemma tbl_unbare: "tbl g c = JSON_STATE_UNBARE \<Longrightarrow> g = GO_BARE"
  by (cases g)
    (simp_all add: json_go_struct_def json_go_string_def json_go_utf8_def json_go_esc_def
      split: if_splits)

lemma cur_tbl_simps:
  "cur_tbl (iter\<lparr>go := Some g\<rparr>) = g"
  "cur_tbl (iter\<lparr>depth := d\<rparr>) = cur_tbl iter"
  by (simp_all add: cur_tbl_def)

termination read_loop
  by (relation "measure (\<lambda>(buf, iter, obj, cur, n, u, c0).
          2 * (length buf - cur) + (if cur_tbl iter = GO_BARE then 1 else 0))")
    (auto dest!: byte_at_nonzero tbl_unbare simp: cur_tbl_simps)

text \<open>
  \<open>json_read\<close>. The iterator pointer \<open>prev\<close> may be null (\<open>None\<close>); the output slot
  \<open>obj\<close> is returned as the second component. The loop variable \<open>c\<close> is not
  initialised in the source; it is first read after the loop has run at least once.
\<close>

definition json_read :: "string \<Rightarrow> json_iter option \<Rightarrow> json_iter \<times> json_token" where
  "json_read buf prev =
    (case prev of
       None \<Rightarrow> (JSON_ITER_NULL\<lparr>err := 1\<rparr>, JSON_TOKEN_NULL)
     | Some p \<Rightarrow>
        (case src p of
           None \<Rightarrow> (JSON_ITER_NULL\<lparr>err := 1\<rparr>, JSON_TOKEN_NULL)
         | Some s \<Rightarrow>
            if ilen p = 0 \<or> err p \<noteq> 0 then (JSON_ITER_NULL\<lparr>err := 1\<rparr>, JSON_TOKEN_NULL)
            else
              let iter = p\<lparr>err := 0\<rparr>;
                  iter1 = (if go iter = None then iter\<lparr>go := Some GO_STRUCT\<rparr> else iter)
              in read_loop buf iter1 JSON_TOKEN_NULL s (ilen iter1) 0 (CHR 0x00)))"

section \<open>Parser\<close>

text \<open>
  The \<open>while\<close> loop of \<open>json_num\<close>. Nothing in it bounds the number of rounds, so it
  is a partial function: \<open>None\<close> is the loop that never ends.
\<close>

partial_function (option) json_num_loop ::
  "string \<Rightarrow> json_iter \<Rightarrow> json_token \<Rightarrow> int \<Rightarrow> int option"
where
  "json_num_loop buf iter tok count =
    (if err iter = 0 \<and> src iter \<noteq> None \<and> str tok \<noteq> None then
       (case json_read buf (Some iter) of
          (iter1, tok1) \<Rightarrow> json_num_loop buf iter1 tok1 (count + (1 + sub tok)))
     else Some count)"

declare json_num_loop.simps [code]

definition json_num :: "string \<Rightarrow> nat option \<Rightarrow> int \<Rightarrow> int option" where
  "json_num buf json length' =
    (if json = None \<or> length' = 0 then Some 0
     else
       (case json_read buf (Some (json_begin json length')) of
          (iter, tok) \<Rightarrow> json_num_loop buf iter tok 0))"

text \<open>
  \<open>json_load\<close> and its \<open>while\<close> loop. The token array is the memory from \<open>toks\<close>
  on, a function from the index to the cell, so that a store at any index is visible;
  \<open>*read\<close> is passed in and returned; the parameters \<open>max\<close> and \<open>length\<close>
  are written \<open>max'\<close> and \<open>length'\<close>. Both are references that are never null here.
  The result is the status, the token memory and \<open>*read\<close>.
\<close>

function json_load ::
  "string \<Rightarrow> (int \<Rightarrow> json_token) \<Rightarrow> int \<Rightarrow> int \<Rightarrow> nat option \<Rightarrow> int
    \<Rightarrow> json_status \<times> (int \<Rightarrow> json_token) \<times> int"
and json_load_loop ::
  "string \<Rightarrow> (int \<Rightarrow> json_token) \<Rightarrow> int \<Rightarrow> int \<Rightarrow> json_iter \<Rightarrow> json_token
    \<Rightarrow> json_status \<times> (int \<Rightarrow> json_token) \<times> int"
where
  "json_load buf toks max' read json length' =
    (if json = None \<or> length' = 0 \<or> max' = 0 then (JSON_INVAL, toks, read)
     else if read \<ge> max' then (JSON_OUT_OF_TOKEN, toks, read)
     else
       (case json_read buf (Some (json_begin json length')) of
          (iter, tok) \<Rightarrow>
            if err iter \<noteq> 0 \<and> ilen iter \<noteq> 0 then (JSON_PARSING_ERROR, toks, read)
            else json_load_loop buf toks max' read iter tok))"
| "json_load_loop buf toks max' read iter tok =
    (if ilen iter = 0 then (JSON_OK, toks, read)
     else
       let toks1 = toks(read := tok); read1 = read + 1 in
       if read1 > max' then (JSON_OUT_OF_TOKEN, toks1, read1)
       else
         (case (if ttype (toks1 (read1 - 1)) = JSON_OBJECT \<or> ttype (toks1 (read1 - 1)) = JSON_ARRAY
                then json_load buf toks1 max' read1 (str (toks1 (read1 - 1))) (len (toks1 (read1 - 1)))
                else (JSON_OK, toks1, read1)) of
            (status, toks2, read2) \<Rightarrow>
              if status \<noteq> JSON_OK then (status, toks2, read2)
              else
                (case json_read buf (Some iter) of
                   (iter1, tok1) \<Rightarrow>
                     if err iter1 \<noteq> 0 \<and> src iter1 \<noteq> None \<and> ilen iter1 \<noteq> 0
                     then (JSON_PARSING_ERROR, toks2, read2)
                     else json_load_loop buf toks2 max' read2 iter1 tok1)))"
  by pat_completeness auto

text \<open>Termination: \<open>*read\<close> never decreases, and the loop stops once it exceeds \<open>max\<close>.\<close>

lemma load_read_mono_dom:
  "json_load_json_load_loop_dom (Inl (buf, toks, max', read, json, length')) \<Longrightarrow>
     read \<le> snd (snd (json_load buf toks max' read json length'))"
  "json_load_json_load_loop_dom (Inr (buf, toks, max', read, iter, tok)) \<Longrightarrow>
     read \<le> snd (snd (json_load_loop buf toks max' read iter tok))"
proof (induct rule: json_load_json_load_loop.pinduct)
  case (1 buf toks max' read json length')
  then show ?case
    by (simp add: json_load.psimps split: prod.splits)
next
  case (2 buf toks max' read iter tok)
  show ?case
  proof (cases "ilen iter = 0 \<or> max' < read + 1")
    case True
    then show ?thesis using 2(1) by (auto simp: json_load_loop.psimps Let_def)
  next
    case False
    let ?toks1 = "toks(read := tok)"
    obtain st toks2 read2 where r: "(if ttype (?toks1 (read + 1 - 1)) = JSON_OBJECT \<or>
               ttype (?toks1 (read + 1 - 1)) = JSON_ARRAY
            then json_load buf ?toks1 max' (read + 1) (str (?toks1 (read + 1 - 1)))
                  (len (?toks1 (read + 1 - 1)))
            else (JSON_OK, ?toks1, read + 1)) = (st, toks2, read2)"
      by (metis prod_cases3)
    have le: "read + 1 \<le> read2"
      using False 2(2)[OF _ refl refl] r by (auto simp: fun_upd_def split: if_splits)
    obtain it1 tk1 where jr: "json_read buf (Some iter) = (it1, tk1)" by force
    show ?thesis
    proof (cases "st \<noteq> JSON_OK \<or> (err it1 \<noteq> 0 \<and> src it1 \<noteq> None \<and> ilen it1 \<noteq> 0)")
      case True
      then show ?thesis using False 2(1) r le jr
        by (auto simp: json_load_loop.psimps Let_def)
    next
      case F2: False
      have "read2 \<le> snd (snd (json_load_loop buf toks2 max' read2 it1 tk1))"
        using 2(3)[OF _ refl refl _ r[symmetric] refl _ jr[symmetric]] False F2 by auto
      then show ?thesis using False F2 2(1) r le jr
        by (auto simp: json_load_loop.psimps Let_def)
    qed
  qed
qed

termination json_load
proof (relation "measure (\<lambda>x. case x of
          Inl (buf, toks, max', read, json, length') \<Rightarrow> 2 * nat (max' + 1 - read) + 1
        | Inr (buf, toks, max', read, iter, tok) \<Rightarrow> 2 * nat (max' + 1 - read))", goal_cases)
  case 1
  then show ?case by simp
next
  case (2 buf toks max' read json length' x y)
  then show ?case by simp
next
  case (3 buf toks max' read iter tok x xa)
  then show ?case by auto
next
  case (4 buf toks max' read iter tok x xa xb y xc ya xd yb)
  have "xa \<le> ya"
  proof (cases "ttype (x (xa - 1)) = JSON_OBJECT \<or> ttype (x (xa - 1)) = JSON_ARRAY")
    case True
    then show ?thesis using 4 load_read_mono_dom(1)[of buf x max' xa "str (x (xa - 1))" "len (x (xa - 1))"]
      by (auto simp: snd_def split: prod.splits)
  next
    case False
    then show ?thesis using 4 by auto
  qed
  then show ?case using 4 by auto
qed

section \<open>Query\<close>

text \<open>
  A path is a C string: the list \<open>pbuf\<close> holds its bytes before the terminator, a
  pointer into it is an offset, and \<open>byte_at\<close> reads the terminator at its end. The
  tokens \<open>name\<close> and \<open>array\<close> of \<open>json_query\<close> point into the path.
\<close>

definition JSON_DELIMITER :: char where
  "JSON_DELIMITER = CHR ''.''"

function strchr_loop :: "string \<Rightarrow> nat \<Rightarrow> char \<Rightarrow> int \<Rightarrow> int \<Rightarrow> bool \<Rightarrow> nat option" where
  "strchr_loop pbuf s c n dec neg =
    (if byte_at pbuf s \<noteq> CHR 0x00 \<and> n \<ge> 0 then
       (if byte_at pbuf s = c then Some s
        else strchr_loop pbuf (s + 1) c (n - dec) dec neg)
     else if neg then Some s else None)"
  by pat_completeness auto
termination
  by (relation "measure (\<lambda>(pbuf, s, c, n, dec, neg). length pbuf - s)")
    (auto dest!: byte_at_nonzero intro!: diff_less_mono2)

definition json_strchr :: "string \<Rightarrow> nat option \<Rightarrow> char \<Rightarrow> int \<Rightarrow> nat option" where
  "json_strchr pbuf s c n =
    (let neg = (n < 0);
         dec = (if neg then 0 else 1);
         n1 = (if neg then 0 else n)
     in case s of None \<Rightarrow> None | Some p \<Rightarrow> strchr_loop pbuf p c n1 dec neg)"

text \<open>
  \<open>json_path_parse_name\<close>: the result is the returned pointer and the token \<open>*tok\<close>.
  With a negative length \<open>json_strchr\<close> returns a non-null pointer for a non-null
  string, so \<open>del\<close>, \<open>begin\<close> and \<open>end\<close> are not null here; the last case is never
  taken.
\<close>

definition json_path_parse_name ::
  "string \<Rightarrow> json_token \<Rightarrow> nat option \<Rightarrow> char \<Rightarrow> nat option \<times> json_token"
where
  "json_path_parse_name pbuf tok path delimiter =
    (case path of
       None \<Rightarrow> (None, tok)
     | Some p \<Rightarrow>
        if byte_at pbuf p = CHR 0x00 then (None, tok)
        else
          let tok1 = tok\<lparr>str := Some p\<rparr> in
          (case (json_strchr pbuf (str tok1) delimiter (- 1),
                 json_strchr pbuf (str tok1) (CHR ''['') (- 1),
                 json_strchr pbuf (str tok1) (CHR '']'') (- 1)) of
             (Some del, Some begin, Some end') \<Rightarrow>
               if begin = p then
                 (let tok2 = tok1\<lparr>len := (int end' - int begin) + 1\<rparr>
                  in if byte_at pbuf (end' + 1) = CHR 0x00 then (None, tok2)
                     else if byte_at pbuf (end' + 1) = CHR ''.'' then (Some (end' + 2), tok2)
                     else (Some (end' + 1), tok2))
               else if begin < del then (Some begin, tok1\<lparr>len := int begin - int p\<rparr>)
               else if byte_at pbuf del = CHR 0x00 then (None, tok1\<lparr>len := int del - int p\<rparr>)
               else (Some (del + 1), tok1\<lparr>len := int del - int p\<rparr>)
           | _ \<Rightarrow> (None, tok1)))"

text \<open>
  \<open>json_path_parse_array\<close>: the result is the returned flag and the token \<open>*array\<close>.
\<close>

definition json_path_parse_array :: "string \<Rightarrow> json_token \<Rightarrow> json_token \<Rightarrow> int \<times> json_token" where
  "json_path_parse_array pbuf array token =
    (let array1 = array\<lparr>str := str token\<rparr> in
     case json_strchr pbuf (str array1) (CHR ''['') (len token) of
       None \<Rightarrow> (0, array1)
     | Some begin \<Rightarrow>
        if ptr_diff begin (str array1) \<ge> len token then (0, array1)
        else
          (case json_strchr pbuf (Some begin) (CHR '']'')
                  (len token - ptr_diff begin (str array1)) of
             None \<Rightarrow> (0, array1)
           | Some end' \<Rightarrow>
              if ptr_diff end' (str array1) \<ge> len token then (0, array1)
              else (1, array1\<lparr>str := Some (begin + 1), len := (int end' - 1) - int begin\<rparr>)))"

text \<open>The conversion \<open>(int)n\<close> of a \<open>double\<close> truncates towards zero.\<close>

definition c_int :: "json_number \<Rightarrow> int" where
  "c_int n = (if n \<ge> 0 then \<lfloor>n\<rfloor> else \<lceil>n\<rceil>)"

text \<open>
  The \<open>for\<close> loop of \<open>json_query\<close> that steps over array elements; \<open>iter\<close> is always
  \<open>&toks[i]\<close>. \<open>None\<close> is the \<open>return NULL\<close> inside the loop.
\<close>

function array_skip :: "(int \<Rightarrow> json_token) \<Rightarrow> int \<Rightarrow> json_number \<Rightarrow> int \<Rightarrow> int \<Rightarrow> int option" where
  "array_skip toks count n j i =
    (if of_int j < n then
       (let i1 = (if ttype (toks i) = JSON_ARRAY \<or> ttype (toks i) = JSON_OBJECT
                  then i + sub (toks i) + 1 else i + 1)
        in if i1 > count then None else array_skip toks count n (j + 1) i1)
     else Some i)"
  by pat_completeness auto
termination
  by (relation "measure (\<lambda>(toks, count, n, j, i). nat \<lceil>n - of_int j\<rceil>)") (auto, linarith)

text \<open>
  The state of the \<open>while (1)\<close> loop of \<open>json_query\<close>: the locals \<open>i\<close>,
  \<open>begin\<close>, \<open>name\<close>, \<open>array\<close>, \<open>obj.index\<close>, \<open>obj.size\<close> and the parameter
  \<open>path\<close>. The local \<open>iter\<close> is always \<open>&toks[i]\<close>.
\<close>

record query_state =
  q_i :: int
  q_begin :: bool
  q_name :: json_token
  q_array :: json_token
  q_index :: int
  q_size :: int
  q_path :: "nat option"

text \<open>
  One round of the loop: \<open>Inl r\<close> is \<open>return r\<close>, where \<open>None\<close> is \<open>NULL\<close> and
  \<open>Some k\<close> is \<open>&toks[k]\<close>; \<open>Inr st\<close> is the state at the next round.
\<close>

definition json_query_step ::
  "string \<Rightarrow> string \<Rightarrow> (int \<Rightarrow> json_token) \<Rightarrow> int \<Rightarrow> query_state \<Rightarrow> int option + query_state"
where
  "json_query_step pbuf buf toks count st =
    (let i = q_i st in
     if ttype (toks i) = JSON_OBJECT \<or> ttype (toks i) = JSON_ARRAY \<or> q_begin st then
       (let st1 = st\<lparr>q_index := 0\<rparr> in
        if q_begin st1 then Inr (st1\<lparr>q_begin := False, q_size := count\<rparr>)
        else if ttype (toks i) = JSON_OBJECT then
          (let st2 = st1\<lparr>q_size := children (toks i)\<rparr>
           in if (i + 1) > count then Inl None else Inr (st2\<lparr>q_i := i + 1\<rparr>))
        else
          (case json_path_parse_array pbuf (q_array st1) (q_name st1) of
             (ok, array1) \<Rightarrow>
               if ok = 0 then Inl None
               else if (i + 1) \<ge> count then Inl None
               else if len array1 < 1 then Inl None
               else
                 (case json_convert pbuf 0 array1 of
                    (kind, n) \<Rightarrow>
                      if kind \<noteq> JSON_NUMBER then Inl None
                      else if c_int n \<ge> children (toks i) then Inl None
                      else
                        (case array_skip toks count n 0 (i + 1) of
                           None \<Rightarrow> Inl None
                         | Some i1 \<Rightarrow>
                            (case q_path st1 of
                               None \<Rightarrow> Inl (Some i1)
                             | Some p \<Rightarrow>
                                (case json_path_parse_name pbuf (q_name st1) (q_path st1)
                                        JSON_DELIMITER of
                                   (path1, name1) \<Rightarrow>
                                     Inr (st1\<lparr>q_i := i1, q_name := name1,
                                              q_array := array1\<lparr>str := None, len := 0\<rparr>,
                                              q_path := path1\<rparr>)))))))
     else
       (if json_lcmp buf pbuf (toks i) (str (q_name st)) (len (q_name st)) = 0 then
          (case q_path st of
             None \<Rightarrow> if (i + 1) > count then Inl None else Inl (Some (i + 1))
           | Some p \<Rightarrow>
              if (i + 1) > count then Inl None
              else if ttype (toks (i + 1)) \<noteq> JSON_OBJECT \<and> ttype (toks (i + 1)) \<noteq> JSON_ARRAY
              then Inl None
              else
                (case json_path_parse_name pbuf (q_name st) (q_path st) JSON_DELIMITER of
                   (path1, name1) \<Rightarrow>
                     Inr (st\<lparr>q_i := i + 1, q_name := name1, q_path := path1\<rparr>)))
        else
          (let st1 = st\<lparr>q_index := q_index st + 1\<rparr> in
           if q_index st1 \<ge> q_size st1 then Inl None
           else if (i + 1) \<ge> count then Inl None
           else
             (let i1 = (if ttype (toks (i + 1)) = JSON_ARRAY \<or> ttype (toks (i + 1)) = JSON_OBJECT
                        then i + (sub (toks (i + 1)) + 2) else i + 2)
              in if i1 \<ge> count then Inl None else Inr (st1\<lparr>q_i := i1\<rparr>)))))"

text \<open>
  The loop itself. On an arbitrary token array nothing bounds it, so it is a partial
  function: \<open>None\<close> is the loop that never ends.
\<close>

partial_function (option) json_query_loop ::
  "string \<Rightarrow> string \<Rightarrow> (int \<Rightarrow> json_token) \<Rightarrow> int \<Rightarrow> query_state \<Rightarrow> int option option"
where
  "json_query_loop pbuf buf toks count st =
    (case json_query_step pbuf buf toks count st of
       Inl r \<Rightarrow> Some r
     | Inr st1 \<Rightarrow> json_query_loop pbuf buf toks count st1)"

declare json_query_loop.simps [code]

text \<open>
  \<open>json_query\<close>: \<open>buf\<close> is the document the tokens point into, \<open>path\<close> the path
  string or null. The token memory \<open>toks\<close> is not null. The locals \<open>name\<close> and
  \<open>obj\<close> are not initialised in the source (\<open>obj\<close> is set in the first round;
  \<open>name\<close> is read before it is set only for an empty path); the model starts them
  as the null token and zero. The outer option is \<open>None\<close> when the loop does not
  end.
\<close>

definition json_query ::
  "string \<Rightarrow> (int \<Rightarrow> json_token) \<Rightarrow> int \<Rightarrow> string option \<Rightarrow> int option option"
where
  "json_query buf toks count path =
    (if count = 0 then Some None
     else
       (case path of
          None \<Rightarrow> Some (Some 0)
        | Some pbuf \<Rightarrow>
            (case json_path_parse_name pbuf JSON_TOKEN_NULL (Some 0) JSON_DELIMITER of
               (path1, name) \<Rightarrow>
                 json_query_loop pbuf buf toks count
                   \<lparr>q_i = 0, q_begin = True, q_name = name,
                    q_array = JSON_TOKEN_NULL\<lparr>len := 0, str := None\<rparr>,
                    q_index = 0, q_size = 0, q_path = path1\<rparr>)))"

text \<open>
  The typed helpers. The output pointers \<open>num\<close>, \<open>buffer\<close> and \<open>size\<close> are not null;
  their contents are passed in and returned after the kind.
\<close>

definition json_query_number ::
  "string \<Rightarrow> json_number \<Rightarrow> (int \<Rightarrow> json_token) \<Rightarrow> int \<Rightarrow> string option
    \<Rightarrow> (json_token_type \<times> json_number) option"
where
  "json_query_number buf num toks count path =
    (if count = 0 \<or> path = None then Some (JSON_NONE, num)
     else
       (case json_query buf toks count path of
          None \<Rightarrow> None
        | Some None \<Rightarrow> Some (JSON_NONE, num)
        | Some (Some k) \<Rightarrow>
            if ttype (toks k) \<noteq> JSON_NUMBER then Some (ttype (toks k), num)
            else Some (json_convert buf num (toks k))))"

definition json_query_string ::
  "string \<Rightarrow> (int \<Rightarrow> char) \<Rightarrow> int \<Rightarrow> int \<Rightarrow> (int \<Rightarrow> json_token) \<Rightarrow> int \<Rightarrow> string option
    \<Rightarrow> (json_token_type \<times> (int \<Rightarrow> char) \<times> int) option"
where
  "json_query_string buf buffer max' size' toks count path =
    (if count = 0 \<or> path = None then Some (JSON_NONE, buffer, size')
     else
       (case json_query buf toks count path of
          None \<Rightarrow> None
        | Some None \<Rightarrow> Some (JSON_NONE, buffer, size')
        | Some (Some k) \<Rightarrow>
            if ttype (toks k) \<noteq> JSON_STRING then Some (ttype (toks k), buffer, size')
            else
              (case json_cpy buf buffer max' (toks k) of
                 (ret, buffer1) \<Rightarrow> Some (ttype (toks k), buffer1, ret))))"

definition json_query_type ::
  "string \<Rightarrow> (int \<Rightarrow> json_token) \<Rightarrow> int \<Rightarrow> string option \<Rightarrow> json_token_type option"
where
  "json_query_type buf toks count path =
    (if count = 0 \<or> path = None then Some JSON_NONE
     else
       (case json_query buf toks count path of
          None \<Rightarrow> None
        | Some None \<Rightarrow> Some JSON_NONE
        | Some (Some k) \<Rightarrow> Some (ttype (toks k))))"

section \<open>Predicates on the bytes of a token\<close>


text \<open>The bytes \<open>tok->str[0 .. len-1]\<close> of a token whose \<open>str\<close> is not null.\<close>

definition bytes_from :: "string \<Rightarrow> nat \<Rightarrow> nat \<Rightarrow> string" where
  "bytes_from buf p n = map (\<lambda>i. byte_at buf (p + i)) [0..<n]"

definition tok_bytes :: "string \<Rightarrow> json_token \<Rightarrow> string" where
  "tok_bytes buf tok = (case str tok of None \<Rightarrow> [] | Some p \<Rightarrow> bytes_from buf p (nat (len tok)))"

text \<open>What the loop of \<open>json_convert\<close> decides, on the bytes alone.\<close>

fun num_scan :: "bool \<Rightarrow> bool \<Rightarrow> string \<Rightarrow> bool" where
  "num_scan f e [] = True"
| "num_scan f e (c # cs) =
    (case json_go_num c of
       JSON_STATE_NUM_FAILED \<Rightarrow> False
     | JSON_STATE_NUM_FLT \<Rightarrow> \<not> f \<and> \<not> e \<and> num_scan True e cs
     | JSON_STATE_NUM_EXP \<Rightarrow> \<not> e \<and> num_scan f True cs
     | JSON_STATE_NUM_BREAK \<Rightarrow> True
     | JSON_STATE_NUM_LOOP \<Rightarrow> num_scan f e cs)"

definition before_break :: "string \<Rightarrow> string" where
  "before_break bs = takeWhile (\<lambda>c. json_go_num c \<noteq> JSON_STATE_NUM_BREAK) bs"

definition two_dots :: "string \<Rightarrow> bool" where
  "two_dots bs = (2 \<le> count_list bs (CHR ''.''))"

definition is_exp :: "char \<Rightarrow> bool" where
  "is_exp c = (c = CHR ''e'' \<or> c = CHR ''E'')"

definition dot_after_exp :: "string \<Rightarrow> bool" where
  "dot_after_exp bs = (CHR ''.'' \<in> set (dropWhile (\<lambda>c. \<not> is_exp c) bs))"

definition no_transition :: "string \<Rightarrow> bool" where
  "no_transition bs = (\<exists>c \<in> set bs. json_go_num c = JSON_STATE_NUM_FAILED)"

definition two_exps :: "string \<Rightarrow> bool" where
  "two_exps bs = (2 \<le> length (filter is_exp bs))"

text \<open>
  The bytes \<open>json_convert\<close> accepts: each has a \<open>json_go_num\<close> transition, there is
  at most one \<open>.\<close> and at most one \<open>e\<close> or \<open>E\<close>, and no \<open>.\<close> after the \<open>e\<close> or \<open>E\<close>.
\<close>

definition num_accepted :: "string \<Rightarrow> bool" where
  "num_accepted bs =
    (\<not> no_transition bs \<and> \<not> two_dots bs \<and> \<not> two_exps bs \<and> \<not> dot_after_exp bs)"

text \<open>
  A well-formed number: an optional minus sign, digits, an optional fraction (a point
  and digits) and an optional exponent (\<open>e\<close> or \<open>E\<close>, an optional sign and digits).
\<close>

definition wf_exponent :: "string \<Rightarrow> bool" where
  "wf_exponent s =
    (case s of
       [] \<Rightarrow> True
     | c # r \<Rightarrow>
        is_exp c \<and>
        (let d = (case r of [] \<Rightarrow> [] | x # r1 \<Rightarrow> if x = CHR ''+'' \<or> x = CHR ''-'' then r1 else r)
         in d \<noteq> [] \<and> list_all is_digit d))"

definition wf_fraction :: "string \<Rightarrow> bool" where
  "wf_fraction s =
    (case s of
       [] \<Rightarrow> True
     | c # r \<Rightarrow>
        if c = CHR ''.'' then takeWhile is_digit r \<noteq> [] \<and> wf_exponent (dropWhile is_digit r)
        else wf_exponent s)"

definition wf_number :: "string \<Rightarrow> bool" where
  "wf_number s =
    (let d = (case s of [] \<Rightarrow> [] | c # r \<Rightarrow> if c = CHR ''-'' then r else s)
     in takeWhile is_digit d \<noteq> [] \<and> wf_fraction (dropWhile is_digit d))"

section \<open>Predicates on the scan and on loaded tokens\<close>


























section \<open>Documents used below\<close>

definition doc_ab :: string where
  \<open>doc_ab = ''{"a":1,"b":"hi"}''\<close>

definition doc_ab_nested :: string where
  \<open>doc_ab_nested = ''[{"a":1,"b":"hi"}]''\<close>

definition doc_string :: string where
  \<open>doc_string = ''"a"''\<close>

definition doc_a1 :: string where
  \<open>doc_a1 = ''{"a":1}''\<close>

definition doc_xs :: string where
  \<open>doc_xs = ''{"xs":[10,20]}''\<close>




section \<open>Evaluation\<close>

lemmas tokenizer_defs =
  json_read_def json_begin_def JSON_ITER_NULL_def JSON_TOKEN_NULL_def byte_at_def
  cur_tbl_def json_go_struct_def json_go_bare_def json_go_string_def json_go_utf8_def
  json_go_esc_def l_end_def l_yield_def set_type_def json_type_def json_deq_def ptr_diff_def
  Let_def word_le_nat_alt word_less_nat_alt

section \<open>The flat layout of an object document\<close>

text \<open>
  C1, as stated: for the 16 bytes \<open>{"a":1,"b":"hi"}\<close>, \<open>json_num\<close> returns 5 and the
  first loaded token is the Object. Both fail: the count is not 5 and the token at
  index 0 is not an Object.
\<close>

theorem C1_counterexample:
  "json_num doc_ab (Some 0) 16 \<noteq> Some 5 \<and>
   ttype (fst (snd (json_load doc_ab (\<lambda>_. JSON_TOKEN_NULL) 5 0 (Some 0) 16)) 0) \<noteq> JSON_OBJECT"
  unfolding doc_ab_def
  by (simp add: json_num_def json_num_loop.simps tokenizer_defs)

text \<open>
  C1, amended: the outer container of a document is not a token; its members are the
  top-level tokens, in pre-order. For \<open>{"a":1,"b":"hi"}\<close>, \<open>json_num\<close> returns 4 and
  \<open>json_load\<close> returns \<open>JSON_OK\<close> with \<open>*read = 4\<close> and the array
  [String \<open>a\<close>, Number \<open>1\<close>, String \<open>b\<close>, String \<open>hi\<close>]. The Object token appears
  when the object is itself an element: for \<open>[{"a":1,"b":"hi"}]\<close>, \<open>json_num\<close>
  returns 5 and the array is [Object len=16 children=2 sub=4, String \<open>a\<close>,
  Number \<open>1\<close>, String \<open>b\<close>, String \<open>hi\<close>].
\<close>

theorem C1_flat_layout:
  "json_num doc_ab (Some 0) 16 = Some 4 \<and>
   (case json_load doc_ab toks 4 0 (Some 0) 16 of (status, toks1, read) \<Rightarrow>
      status = JSON_OK \<and> read = 4 \<and>
      map toks1 [0, 1, 2, 3] =
        [\<lparr>ttype = JSON_STRING, str = Some 2, len = 1, children = 0, sub = 0\<rparr>,
         \<lparr>ttype = JSON_NUMBER, str = Some 5, len = 1, children = 0, sub = 0\<rparr>,
         \<lparr>ttype = JSON_STRING, str = Some 8, len = 1, children = 0, sub = 0\<rparr>,
         \<lparr>ttype = JSON_STRING, str = Some 12, len = 2, children = 0, sub = 0\<rparr>]) \<and>
   json_num doc_ab_nested (Some 0) 18 = Some 5 \<and>
   (case json_load doc_ab_nested toks 5 0 (Some 0) 18 of (status, toks1, read) \<Rightarrow>
      status = JSON_OK \<and> read = 5 \<and>
      map toks1 [0, 1, 2, 3, 4] =
        [\<lparr>ttype = JSON_OBJECT, str = Some 1, len = 16, children = 2, sub = 4\<rparr>,
         \<lparr>ttype = JSON_STRING, str = Some 3, len = 1, children = 0, sub = 0\<rparr>,
         \<lparr>ttype = JSON_NUMBER, str = Some 6, len = 1, children = 0, sub = 0\<rparr>,
         \<lparr>ttype = JSON_STRING, str = Some 9, len = 1, children = 0, sub = 0\<rparr>,
         \<lparr>ttype = JSON_STRING, str = Some 13, len = 2, children = 0, sub = 0\<rparr>])"
  unfolding doc_ab_def doc_ab_nested_def
  by (simp add: json_num_def json_num_loop.simps tokenizer_defs)

section \<open>The count of \<open>json_num\<close> and the tokens \<open>json_load\<close> writes\<close>

text \<open>
  C2, at the input \<open>"a"\<close> (3 bytes, a document that is one string): \<open>json_load\<close>
  started with \<open>*read = 0\<close> returns \<open>JSON_OK\<close>, writes nothing and leaves
  \<open>*read = 0\<close>, while \<open>json_num\<close> returns 1. The token that ends at the last byte of
  the buffer is counted by \<open>json_num\<close> and dropped by the loop of \<open>json_load\<close>.
\<close>

theorem C2_failing_input:
  "json_load doc_string toks 1 0 (Some 0) 3 = (JSON_OK, toks, 0) \<and>
   json_num doc_string (Some 0) 3 = Some 1"
  unfolding doc_string_def
  by (simp add: json_num_def json_num_loop.simps tokenizer_defs)

section \<open>Capacity\<close>

text \<open>
  C6, at the input \<open>{"a":1}\<close> (7 bytes) with \<open>max = 1\<close> and \<open>*read = 0\<close>:
  \<open>json_load\<close> returns \<open>JSON_OUT_OF_TOKEN\<close> with \<open>*read = 2\<close>, after it has stored
  the Number token at index 1, which is \<open>max\<close>, whatever the memory held there.
\<close>

theorem C6_failing_input:
  "(case json_load doc_a1 toks 1 0 (Some 0) 7 of (status, toks1, read) \<Rightarrow>
      status = JSON_OUT_OF_TOKEN \<and> read = 2 \<and>
      toks1 1 = \<lparr>ttype = JSON_NUMBER, str = Some 5, len = 1, children = 0, sub = 0\<rparr>)"
  unfolding doc_a1_def
  by (simp add: tokenizer_defs)

section \<open>Empty containers\<close>

text \<open>
  C7, as stated: for the two-byte inputs \<open>{}\<close> and \<open>[]\<close>, \<open>json_num\<close> returns 1.
  It does not.
\<close>

theorem C7_counterexample:
  "json_num ''{}'' (Some 0) 2 \<noteq> Some 1 \<and> json_num ''[]'' (Some 0) 2 \<noteq> Some 1"
  by (simp add: json_num_def json_num_loop.simps tokenizer_defs)

text \<open>
  C7, amended: for the two-byte inputs \<open>{}\<close> and \<open>[]\<close>, \<open>json_num\<close> returns 0 and
  \<open>json_load\<close> returns \<open>JSON_OK\<close> without writing a token (\<open>*read\<close> stays 0). An
  empty container that is an element of an outer one is a single token: for \<open>[{}]\<close>
  and \<open>[[]]\<close>, \<open>json_num\<close> returns 1 and \<open>json_load\<close> (with \<open>max = 2\<close>) writes
  exactly one token, of kind Object (respectively Array), with \<open>children = 0\<close> and
  \<open>sub = 0\<close>.
\<close>

theorem C7_empty_containers:
  "json_num ''{}'' (Some 0) 2 = Some 0 \<and> json_num ''[]'' (Some 0) 2 = Some 0 \<and>
   json_load ''{}'' toks 1 0 (Some 0) 2 = (JSON_OK, toks, 0) \<and>
   json_load ''[]'' toks 1 0 (Some 0) 2 = (JSON_OK, toks, 0) \<and>
   json_num ''[{}]'' (Some 0) 4 = Some 1 \<and> json_num ''[[]]'' (Some 0) 4 = Some 1 \<and>
   json_load ''[{}]'' toks 2 0 (Some 0) 4 =
     (JSON_OK, toks(0 := \<lparr>ttype = JSON_OBJECT, str = Some 1, len = 2, children = 0, sub = 0\<rparr>), 1) \<and>
   json_load ''[[]]'' toks 2 0 (Some 0) 4 =
     (JSON_OK, toks(0 := \<lparr>ttype = JSON_ARRAY, str = Some 1, len = 2, children = 0, sub = 0\<rparr>), 1)"
  by (simp add: json_num_def json_num_loop.simps tokenizer_defs)

section \<open>The guard of \<open>json_read\<close>\<close>

text \<open>
  C9: called with a null iterator pointer, or with an iterator whose \<open>src\<close> is null,
  whose \<open>len\<close> is 0 or whose \<open>err\<close> is set, \<open>json_read\<close> writes the null token
  (kind None, \<open>str\<close> null, \<open>len\<close>, \<open>children\<close> and \<open>sub\<close> 0) and returns the null
  iterator with \<open>err = 1\<close>. The result is the same for every buffer: no input byte is
  examined.
\<close>

theorem C9_read_guard:
  assumes "prev = None \<or> (\<exists>p. prev = Some p \<and> (src p = None \<or> ilen p = 0 \<or> err p \<noteq> 0))"
  shows "json_read buf prev =
    (\<lparr>ilen = 0, err = 1, depth = 0, go = None, src = None\<rparr>,
     \<lparr>ttype = JSON_NONE, str = None, len = 0, children = 0, sub = 0\<rparr>)"
  using assms
  by (auto simp: json_read_def JSON_ITER_NULL_def JSON_TOKEN_NULL_def split: option.splits)

theorem C9_read_guard_witness:
  "json_read ''[1]'' None =
     (\<lparr>ilen = 0, err = 1, depth = 0, go = None, src = None\<rparr>,
      \<lparr>ttype = JSON_NONE, str = None, len = 0, children = 0, sub = 0\<rparr>) \<and>
   json_read ''[1]'' (Some (json_begin None 3)) = json_read ''xyz'' None \<and>
   json_read ''[1]'' (Some (json_begin (Some 0) 0)) = json_read ''[1]'' None \<and>
   json_read ''[1]'' (Some ((json_begin (Some 0) 3)\<lparr>err := 1\<rparr>)) = json_read ''[1]'' None"
proof -
  have a: "json_read b None =
     (\<lparr>ilen = 0, err = 1, depth = 0, go = None, src = None\<rparr>,
      \<lparr>ttype = JSON_NONE, str = None, len = 0, children = 0, sub = 0\<rparr>)" for b
    using C9_read_guard [of None b] by simp
  have b: "json_read ''[1]'' (Some (json_begin None 3)) = json_read ''xyz'' None"
    using C9_read_guard [of "Some (json_begin None 3)" "''[1]''"] a [of "''xyz''"]
    by (simp add: json_begin_def JSON_ITER_NULL_def)
  have c: "json_read ''[1]'' (Some (json_begin (Some 0) 0)) = json_read ''[1]'' None"
    using C9_read_guard [of "Some (json_begin (Some 0) 0)" "''[1]''"] a [of "''[1]''"]
    by (simp add: json_begin_def JSON_ITER_NULL_def)
  have d: "json_read ''[1]'' (Some ((json_begin (Some 0) 3)\<lparr>err := 1\<rparr>)) = json_read ''[1]'' None"
    using C9_read_guard [of "Some ((json_begin (Some 0) 3)\<lparr>err := 1\<rparr>)" "''[1]''"] a [of "''[1]''"]
    by (simp add: json_begin_def JSON_ITER_NULL_def)
  show ?thesis using a b c d by simp
qed

section \<open>Queries\<close>

text \<open>
  C4, at the tokens loaded from \<open>{"xs":[10,20]}\<close> (14 bytes, 4 tokens): the path
  \<open>xs[0]\<close> resolves to the Number \<open>10\<close> at index 2, and the path \<open>xs[0].1\<close>, which
  descends into that Number, does not return null: it returns the token at index 3.
\<close>

theorem C4_failing_input:
  "(case json_load doc_xs (\<lambda>_. JSON_TOKEN_NULL) 4 0 (Some 0) 14 of (status, toks, count) \<Rightarrow>
      status = JSON_OK \<and> count = 4 \<and>
      toks 2 = \<lparr>ttype = JSON_NUMBER, str = Some 7, len = 2, children = 0, sub = 0\<rparr> \<and>
      json_query doc_xs toks count (Some ''xs[0]'') = Some (Some 2) \<and>
      json_query doc_xs toks count (Some ''xs[0].1'') = Some (Some 3))"
  unfolding doc_xs_def
  by code_simp

text \<open>
  C10: for every token array with \<open>count > 0\<close>, \<open>json_query_number\<close>,
  \<open>json_query_string\<close> and \<open>json_query_type\<close> return the None kind when \<open>path\<close> is
  null (and leave their outputs as they were), although \<open>json_query\<close> with a null
  path returns the root token \<open>&toks[0]\<close>.
\<close>

theorem C10_null_path:
  assumes "count > 0"
  shows "json_query_number buf num toks count None = Some (JSON_NONE, num) \<and>
         json_query_string buf buffer max' size' toks count None = Some (JSON_NONE, buffer, size') \<and>
         json_query_type buf toks count None = Some JSON_NONE \<and>
         json_query buf toks count None = Some (Some 0)"
  using assms
  by (simp add: json_query_number_def json_query_string_def json_query_type_def json_query_def)

theorem C10_null_path_witness:
  "(1::int) > 0 \<and>
   json_query_number ''7'' 0 (\<lambda>_. \<lparr>ttype = JSON_NUMBER, str = Some 0, len = 1, children = 0, sub = 0\<rparr>)
     1 None = Some (JSON_NONE, 0) \<and>
   json_query_type ''7'' (\<lambda>_. \<lparr>ttype = JSON_NUMBER, str = Some 0, len = 1, children = 0, sub = 0\<rparr>)
     1 None = Some JSON_NONE \<and>
   json_query ''7'' (\<lambda>_. \<lparr>ttype = JSON_NUMBER, str = Some 0, len = 1, children = 0, sub = 0\<rparr>)
     1 None = Some (Some 0)"
  using C10_null_path [of 1 "''7''" 0
      "\<lambda>_. \<lparr>ttype = JSON_NUMBER, str = Some 0, len = 1, children = 0, sub = 0\<rparr>"]
  by simp

section \<open>Number conversion\<close>
lemma bytes_from_Suc: "bytes_from buf p (Suc n) = byte_at buf p # bytes_from buf (Suc p) n"
  by (simp add: bytes_from_def upt_conv_Cons map_Suc_upt [symmetric] del: upt_Suc)

lemma bytes_from_0: "bytes_from buf p 0 = []"
  by (simp add: bytes_from_def)

lemma slot_upd_str:
  "str (slot (slot_upd ns w t) S_FLT) = (if w = S_FLT then str t else str (slot ns S_FLT))"
  "str (slot (slot_upd ns w t) S_EXP) = (if w = S_EXP then str t else str (slot ns S_EXP))"
  by (cases ns; cases w; simp)+

lemma slot_slot_upd: "slot (slot_upd ns w t) w = t"
  by (cases ns; cases w; simp)

lemma convert_loop_scan:
  "(convert_loop buf ns w cur (int n) \<noteq> None) =
     num_scan (str (slot ns S_FLT) \<noteq> None) (str (slot ns S_EXP) \<noteq> None) (bytes_from buf cur n)"
proof (induction n arbitrary: ns w cur)
  case 0
  show ?case by (simp add: bytes_from_0)
next
  case (Suc n)
  have n1: "int (Suc n) - 1 = int n" by simp
  have z: "convert_loop buf ns w (cur + 1) (1 - 1) \<noteq> None" by simp
  show ?case
    apply (subst convert_loop.simps)
    apply (simp only: bytes_from_Suc num_scan.simps n1)
    apply (cases "json_go_num (byte_at buf cur)")
    using Suc.IH z
        apply (simp_all add: Let_def slot_upd_str slot_slot_upd del: convert_loop.simps)
    done
qed


lemma is_digit_not:
  assumes "is_digit c"
  shows "c \<noteq> CHR '' ''" "c \<noteq> CHR 0x0A" "c \<noteq> CHR 0x09" "c \<noteq> CHR 0x0D" "c \<noteq> CHR ''e''"
    "c \<noteq> CHR ''E''" "c \<noteq> CHR ''.''" "c \<noteq> CHR ''-''" "c \<noteq> CHR ''+''"
proof -
  have *: "of_char c \<ge> (48::nat)" "of_char c \<le> (57::nat)"
    using assms by (simp_all add: is_digit_def)
  show "c \<noteq> CHR '' ''" using * by (cases "c = CHR '' ''") simp_all
  show "c \<noteq> CHR 0x0A" using * by (cases "c = CHR 0x0A") simp_all
  show "c \<noteq> CHR 0x09" using * by (cases "c = CHR 0x09") simp_all
  show "c \<noteq> CHR 0x0D" using * by (cases "c = CHR 0x0D") simp_all
  show "c \<noteq> CHR ''e''" using * by (cases "c = CHR ''e''") simp_all
  show "c \<noteq> CHR ''E''" using * by (cases "c = CHR ''E''") simp_all
  show "c \<noteq> CHR ''.''" using * by (cases "c = CHR ''.''") simp_all
  show "c \<noteq> CHR ''-''" using * by (cases "c = CHR ''-''") simp_all
  show "c \<noteq> CHR ''+''" using * by (cases "c = CHR ''+''") simp_all
qed

lemma go_num_digit: "is_digit c \<Longrightarrow> json_go_num c = JSON_STATE_NUM_LOOP"
  using is_digit_not [of c] by (simp add: json_go_num_def is_digit_def)

lemma go_num_chars:
  "json_go_num (CHR ''.'') = JSON_STATE_NUM_FLT"
  "json_go_num (CHR ''-'') = JSON_STATE_NUM_LOOP"
  "json_go_num (CHR ''+'') = JSON_STATE_NUM_LOOP"
  "is_exp c \<Longrightarrow> json_go_num c = JSON_STATE_NUM_EXP"
  by (auto simp: json_go_num_def is_exp_def)

lemma go_num_flt: "(json_go_num c = JSON_STATE_NUM_FLT) = (c = CHR ''.'')"
  by (auto simp: json_go_num_def)

lemma go_num_exp: "(json_go_num c = JSON_STATE_NUM_EXP) = is_exp c"
  by (auto simp: json_go_num_def is_exp_def)

lemma num_scan_digits: "list_all is_digit ds \<Longrightarrow> num_scan f e (ds @ r) = num_scan f e r"
  by (induction ds) (simp_all add: go_num_digit)

lemma num_scan_takeWhile_digits:
  "num_scan f e s = num_scan f e (dropWhile is_digit s)"
proof -
  have "\<forall>x \<in> set (takeWhile is_digit s). is_digit x"
    by (auto dest: set_takeWhileD)
  then have "list_all is_digit (takeWhile is_digit s)"
    by (simp only: list_all_iff)
  from num_scan_digits [OF this, of f e "dropWhile is_digit s"] show ?thesis by simp
qed

lemma wf_exponent_scan: "wf_exponent s \<Longrightarrow> num_scan f False s"
proof (cases s)
  case Nil
  then show ?thesis by simp
next
  case (Cons c r)
  assume wf: "wf_exponent s"
  show ?thesis
  proof (cases r)
    case Nil
    with wf Cons show ?thesis by (simp add: wf_exponent_def)
  next
    case (Cons x r1)
    with wf \<open>s = c # r\<close> have c: "is_exp c" by (simp add: wf_exponent_def)
    show ?thesis
    proof (cases "x = CHR ''+'' \<or> x = CHR ''-''")
      case True
      with wf Cons \<open>s = c # r\<close> have "list_all is_digit r1" by (auto simp: wf_exponent_def)
      from num_scan_digits [OF this, of f True "[]"] True c Cons \<open>s = c # r\<close>
      show ?thesis by (auto simp: go_num_chars)
    next
      case False
      with wf Cons \<open>s = c # r\<close> have "list_all is_digit r" by (auto simp: wf_exponent_def)
      from num_scan_digits [OF this, of f True "[]"] c Cons \<open>s = c # r\<close>
      show ?thesis by (auto simp: go_num_chars)
    qed
  qed
qed

lemma wf_fraction_scan: "wf_fraction s \<Longrightarrow> num_scan False False s"
proof (cases s)
  case Nil
  then show ?thesis by simp
next
  case (Cons c r)
  assume wf: "wf_fraction s"
  show ?thesis
  proof (cases "c = CHR ''.''")
    case True
    with wf Cons have "wf_exponent (dropWhile is_digit r)" by (simp add: wf_fraction_def)
    then have "num_scan True False (dropWhile is_digit r)" by (rule wf_exponent_scan)
    then have "num_scan True False r" using num_scan_takeWhile_digits by blast
    with True Cons show ?thesis by (simp add: go_num_chars)
  next
    case False
    with wf Cons have "wf_exponent s" by (simp add: wf_fraction_def)
    then show ?thesis by (rule wf_exponent_scan)
  qed
qed

lemma wf_number_scan: "wf_number s \<Longrightarrow> num_scan False False s"
proof (cases s)
  case Nil
  then show ?thesis by simp
next
  case (Cons c r)
  assume wf: "wf_number s"
  show ?thesis
  proof (cases "c = CHR ''-''")
    case True
    with wf Cons have "wf_fraction (dropWhile is_digit r)" by (simp add: wf_number_def)
    then have "num_scan False False r"
      using num_scan_takeWhile_digits wf_fraction_scan by blast
    with True Cons show ?thesis by (simp add: go_num_chars)
  next
    case False
    with wf Cons have "wf_fraction (dropWhile is_digit s)" by (simp add: wf_number_def)
    then show ?thesis using num_scan_takeWhile_digits wf_fraction_scan by blast
  qed
qed

lemma num_scan_no_transition: "num_scan f e bs \<Longrightarrow> \<not> no_transition (before_break bs)"
proof (induction bs arbitrary: f e)
  case Nil
  then show ?case by (simp add: no_transition_def before_break_def)
next
  case (Cons c cs)
  show ?case
  proof (cases "json_go_num c")
    case JSON_STATE_NUM_FAILED
    with Cons.prems show ?thesis by simp
  next
    case JSON_STATE_NUM_LOOP
    moreover have "\<not> no_transition (before_break cs)"
      using Cons.IH [of f e] Cons.prems JSON_STATE_NUM_LOOP by simp
    ultimately show ?thesis by (simp add: no_transition_def before_break_def)
  next
    case JSON_STATE_NUM_FLT
    moreover have "\<not> no_transition (before_break cs)"
      using Cons.IH [of True False] Cons.prems JSON_STATE_NUM_FLT by auto
    ultimately show ?thesis by (simp add: no_transition_def before_break_def)
  next
    case JSON_STATE_NUM_EXP
    moreover have "\<not> no_transition (before_break cs)"
      using Cons.IH [of f True] Cons.prems JSON_STATE_NUM_EXP by auto
    ultimately show ?thesis by (simp add: no_transition_def before_break_def)
  next
    case JSON_STATE_NUM_BREAK
    then show ?thesis by (simp add: no_transition_def before_break_def)
  qed
qed

lemma num_scan_no_dot:
  "num_scan f e bs \<Longrightarrow> f \<or> e \<Longrightarrow> CHR ''.'' \<notin> set (before_break bs)"
proof (induction bs arbitrary: f e)
  case Nil
  then show ?case by (simp add: before_break_def)
next
  case (Cons c cs)
  show ?case
  proof (cases "json_go_num c")
    case JSON_STATE_NUM_FAILED
    with Cons.prems show ?thesis by simp
  next
    case JSON_STATE_NUM_LOOP
    then have "c \<noteq> CHR ''.''" by (auto simp: go_num_chars)
    moreover have "CHR ''.'' \<notin> set (before_break cs)"
      using Cons.IH [of f e] Cons.prems JSON_STATE_NUM_LOOP by simp
    ultimately show ?thesis using JSON_STATE_NUM_LOOP by (simp add: before_break_def)
  next
    case JSON_STATE_NUM_FLT
    with Cons.prems show ?thesis by simp
  next
    case JSON_STATE_NUM_EXP
    then have "c \<noteq> CHR ''.''" by (auto simp: go_num_chars)
    moreover have "CHR ''.'' \<notin> set (before_break cs)"
      using Cons.IH [of f True] Cons.prems JSON_STATE_NUM_EXP by simp
    ultimately show ?thesis using JSON_STATE_NUM_EXP by (simp add: before_break_def)
  next
    case JSON_STATE_NUM_BREAK
    then show ?thesis by (simp add: before_break_def)
  qed
qed

lemma num_scan_two_dots: "num_scan f e bs \<Longrightarrow> \<not> two_dots (before_break bs)"
proof (induction bs arbitrary: f e)
  case Nil
  then show ?case by (simp add: two_dots_def before_break_def)
next
  case (Cons c cs)
  show ?case
  proof (cases "json_go_num c")
    case JSON_STATE_NUM_FAILED
    with Cons.prems show ?thesis by simp
  next
    case JSON_STATE_NUM_LOOP
    then have "c \<noteq> CHR ''.''" by (auto simp: go_num_chars)
    moreover have "\<not> two_dots (before_break cs)"
      using Cons.IH [of f e] Cons.prems JSON_STATE_NUM_LOOP by simp
    ultimately show ?thesis using JSON_STATE_NUM_LOOP
      by (simp add: two_dots_def before_break_def)
  next
    case JSON_STATE_NUM_FLT
    with Cons.prems have "num_scan True False cs" by auto
    then have "CHR ''.'' \<notin> set (before_break cs)" by (rule num_scan_no_dot) simp
    then have "count_list (before_break cs) (CHR ''.'') = 0"
      by (simp add: count_list_0_iff)
    with JSON_STATE_NUM_FLT show ?thesis
      by (simp add: two_dots_def before_break_def)
  next
    case JSON_STATE_NUM_EXP
    then have "c \<noteq> CHR ''.''" by (auto simp: go_num_chars)
    moreover have "\<not> two_dots (before_break cs)"
      using Cons.IH [of f True] Cons.prems JSON_STATE_NUM_EXP by simp
    ultimately show ?thesis using JSON_STATE_NUM_EXP
      by (simp add: two_dots_def before_break_def)
  next
    case JSON_STATE_NUM_BREAK
    then show ?thesis by (simp add: two_dots_def before_break_def)
  qed
qed

lemma num_scan_dot_after_exp: "num_scan f e bs \<Longrightarrow> \<not> dot_after_exp (before_break bs)"
proof (induction bs arbitrary: f e)
  case Nil
  then show ?case by (simp add: dot_after_exp_def before_break_def)
next
  case (Cons c cs)
  show ?case
  proof (cases "json_go_num c")
    case JSON_STATE_NUM_FAILED
    with Cons.prems show ?thesis by simp
  next
    case JSON_STATE_NUM_LOOP
    then have "\<not> is_exp c" by (auto simp: go_num_chars)
    moreover have "\<not> dot_after_exp (before_break cs)"
      using Cons.IH [of f e] Cons.prems JSON_STATE_NUM_LOOP by simp
    ultimately show ?thesis using JSON_STATE_NUM_LOOP
      by (simp add: dot_after_exp_def before_break_def)
  next
    case JSON_STATE_NUM_FLT
    then have "\<not> is_exp c" by (auto simp: go_num_chars)
    moreover have "\<not> dot_after_exp (before_break cs)"
      using Cons.IH [of True False] Cons.prems JSON_STATE_NUM_FLT by auto
    ultimately show ?thesis using JSON_STATE_NUM_FLT
      by (simp add: dot_after_exp_def before_break_def)
  next
    case JSON_STATE_NUM_EXP
    with Cons.prems have "num_scan f True cs" by simp
    then have "CHR ''.'' \<notin> set (before_break cs)" by (rule num_scan_no_dot) simp
    moreover have "is_exp c" "c \<noteq> CHR ''.''"
      using JSON_STATE_NUM_EXP by (auto simp: go_num_exp [symmetric] go_num_chars)
    ultimately show ?thesis using JSON_STATE_NUM_EXP
      by (simp add: dot_after_exp_def before_break_def)
  next
    case JSON_STATE_NUM_BREAK
    then show ?thesis by (simp add: dot_after_exp_def before_break_def)
  qed
qed

lemma json_convert_scan:
  assumes "str tok = Some p" and "0 < len tok"
  shows "(fst (json_convert buf num tok) = JSON_NUMBER) = num_scan False False (tok_bytes buf tok)"
    and "(fst (json_convert buf num tok) = JSON_NONE) = (\<not> num_scan False False (tok_bytes buf tok))"
proof -
  let ?r = "convert_loop buf (JSON_TOKEN_NULL\<lparr>str := str tok\<rparr>, JSON_TOKEN_NULL, JSON_TOKEN_NULL)
           S_INT p (len tok)"
  have l: "len tok = int (nat (len tok))" using assms by simp
  have key: "(?r \<noteq> None) = num_scan False False (tok_bytes buf tok)"
    by (subst l, subst convert_loop_scan) (simp add: tok_bytes_def assms JSON_TOKEN_NULL_def)
  have r: "fst (json_convert buf num tok) = (if ?r = None then JSON_NONE else JSON_NUMBER)"
    using assms
    by (simp add: json_convert_def Let_def split: option.splits prod.splits
        del: convert_loop.simps)
  show "(fst (json_convert buf num tok) = JSON_NUMBER) = num_scan False False (tok_bytes buf tok)"
    using key r by (cases ?r) (simp_all del: convert_loop.simps)
  show "(fst (json_convert buf num tok) = JSON_NONE) = (\<not> num_scan False False (tok_bytes buf tok))"
    using key r by (cases ?r) (simp_all del: convert_loop.simps)
qed

lemma count_pos_iff: "(Suc 0 \<le> count_list xs x) = (x \<in> set xs)"
proof -
  have "(count_list xs x = 0) = (x \<notin> set xs)" by (rule count_list_0_iff)
  then show ?thesis by (cases "count_list xs x") auto
qed

lemma before_break_Cons:
  "before_break (c # cs) =
    (if json_go_num c = JSON_STATE_NUM_BREAK then [] else c # before_break cs)"
  by (simp add: before_break_def)

lemma go_num_loop_not:
  assumes "json_go_num c = JSON_STATE_NUM_LOOP"
  shows "c \<noteq> CHR ''.''" "\<not> is_exp c"
  using assms by (auto simp: go_num_chars)

lemma num_scan_iff:
  "num_scan f e bs =
    (\<not> no_transition (before_break bs) \<and> \<not> two_dots (before_break bs) \<and>
     \<not> two_exps (before_break bs) \<and> \<not> dot_after_exp (before_break bs) \<and>
     (f \<or> e \<longrightarrow> CHR ''.'' \<notin> set (before_break bs)) \<and>
     (e \<longrightarrow> filter is_exp (before_break bs) = []))"
proof (induction bs arbitrary: f e)
  case Nil
  show ?case
    by (simp add: before_break_def no_transition_def two_dots_def two_exps_def dot_after_exp_def)
next
  case (Cons c cs)
  let ?b = "before_break cs"
  show ?case
  proof (cases "json_go_num c")
    case JSON_STATE_NUM_FAILED
    then show ?thesis by (simp add: before_break_Cons no_transition_def)
  next
    case JSON_STATE_NUM_BREAK
    then show ?thesis
      by (simp add: before_break_Cons no_transition_def two_dots_def two_exps_def
          dot_after_exp_def)
  next
    case JSON_STATE_NUM_LOOP
    note n = go_num_loop_not [OF this]
    have "no_transition (c # ?b) = no_transition ?b" "two_dots (c # ?b) = two_dots ?b"
      "two_exps (c # ?b) = two_exps ?b" "dot_after_exp (c # ?b) = dot_after_exp ?b"
      using n JSON_STATE_NUM_LOOP
      by (simp_all add: no_transition_def two_dots_def two_exps_def dot_after_exp_def)
    then show ?thesis
      using JSON_STATE_NUM_LOOP n Cons.IH [of f e] by (simp add: before_break_Cons)
  next
    case JSON_STATE_NUM_FLT
    then have c: "c = CHR ''.''" by (simp add: go_num_flt)
    have ne: "\<not> is_exp c" using c by (simp add: is_exp_def)
    have a: "no_transition (c # ?b) = no_transition ?b"
      "two_dots (c # ?b) = (CHR ''.'' \<in> set ?b)"
      "two_exps (c # ?b) = two_exps ?b" "dot_after_exp (c # ?b) = dot_after_exp ?b"
      using c ne JSON_STATE_NUM_FLT
      by (simp_all add: no_transition_def two_dots_def two_exps_def dot_after_exp_def
          count_pos_iff)
    have td: "CHR ''.'' \<notin> set ?b \<Longrightarrow> \<not> two_dots ?b"
      by (simp add: two_dots_def count_list_0_iff)
    show ?thesis
      using JSON_STATE_NUM_FLT c a td Cons.IH [of True e]
      by (auto simp add: before_break_Cons)
  next
    case JSON_STATE_NUM_EXP
    then have ex: "is_exp c" by (simp add: go_num_exp)
    then have c: "c \<noteq> CHR ''.''" by (auto simp: is_exp_def)
    have a: "no_transition (c # ?b) = no_transition ?b"
      "two_dots (c # ?b) = two_dots ?b"
      "two_exps (c # ?b) = (filter is_exp ?b \<noteq> [])"
      "dot_after_exp (c # ?b) = (CHR ''.'' \<in> set ?b)"
      using c ex JSON_STATE_NUM_EXP
      by (auto simp add: no_transition_def two_dots_def two_exps_def dot_after_exp_def
          Suc_le_eq)
    have td: "CHR ''.'' \<notin> set ?b \<Longrightarrow> \<not> two_dots ?b \<and> \<not> dot_after_exp ?b"
      by (auto simp add: two_dots_def count_list_0_iff dot_after_exp_def dest: set_dropWhileD)
    have te: "filter is_exp ?b = [] \<Longrightarrow> \<not> two_exps ?b" by (simp add: two_exps_def)
    show ?thesis
      using JSON_STATE_NUM_EXP ex c a td te Cons.IH [of f True]
      by (auto simp add: before_break_Cons)
  qed
qed

lemma num_scan_accepted: "num_scan False False bs = num_accepted (before_break bs)"
  by (simp add: num_scan_iff num_accepted_def)

lemmas bytes_eval = bytes_from_Suc bytes_from_0 byte_at_def eval_nat_numeral

text \<open>
  C5, as stated: every token whose bytes contain two \<open>.\<close> converts to the None kind.
  The token \<open>1 ..\<close> (a bare run the tokenizer yields as a Number, as in \<open>[1 ..]\<close>)
  contains two, and \<open>json_convert\<close> does not return None for it.
\<close>

theorem C5_counterexample:
  "two_dots (tok_bytes ''1 ..'' \<lparr>ttype = JSON_NUMBER, str = Some 0, len = 4, children = 0, sub = 0\<rparr>) \<and>
   fst (json_convert ''1 ..'' 0 \<lparr>ttype = JSON_NUMBER, str = Some 0, len = 4, children = 0, sub = 0\<rparr>)
     \<noteq> JSON_NONE"
proof -
  let ?t = "\<lparr>ttype = JSON_NUMBER, str = Some 0, len = 4, children = 0, sub = 0\<rparr>"
  have b: "tok_bytes ''1 ..'' ?t = ''1 ..''"
    by (simp add: tok_bytes_def bytes_eval)
  have "num_scan False False (tok_bytes ''1 ..'' ?t)"
    unfolding b by (simp add: json_go_num_def)
  then have "fst (json_convert ''1 ..'' 0 ?t) = JSON_NUMBER"
    using json_convert_scan(1) [of ?t 0 "''1 ..''" 0] by simp
  moreover have "two_dots (tok_bytes ''1 ..'' ?t)"
    unfolding b by (simp add: two_dots_def)
  ultimately show ?thesis by simp
qed

text \<open>
  C5, amended. Once \<open>json_init\<close> has filled the tables (\<open>json_begin\<close> calls it,
  \<open>json_convert\<close> does not), \<open>json_convert\<close> decides on the bytes of the token that
  come before its first whitespace byte (space, newline, tab, carriage return; all the
  bytes when there is none) and on nothing after them. For every token with a non-null
  \<open>str\<close> and \<open>len > 0\<close> the result is the Number kind exactly when each of those bytes
  has a \<open>go_num\<close> transition and there is at most one \<open>.\<close>, at most one \<open>e\<close> or \<open>E\<close>
  and no \<open>.\<close> after the \<open>e\<close> or \<open>E\<close>; otherwise it is the None kind. So two \<open>.\<close>, a
  \<open>.\<close> after an \<open>e\<close> or \<open>E\<close>, or a byte with no transition give None when they come
  before the first whitespace byte, and every well-formed numeric token (an optional
  minus sign, digits, an optional fraction and an optional exponent) gives Number.
\<close>

theorem C5_json_convert:
  assumes "str tok = Some p" and "0 < len tok"
  shows "(fst (json_convert buf num tok) = JSON_NUMBER
            \<longleftrightarrow> num_accepted (before_break (tok_bytes buf tok))) \<and>
         (fst (json_convert buf num tok) = JSON_NONE
            \<longleftrightarrow> \<not> num_accepted (before_break (tok_bytes buf tok))) \<and>
         (two_dots (before_break (tok_bytes buf tok)) \<or>
          dot_after_exp (before_break (tok_bytes buf tok)) \<or>
          no_transition (before_break (tok_bytes buf tok))
            \<longrightarrow> fst (json_convert buf num tok) = JSON_NONE) \<and>
         (wf_number (tok_bytes buf tok) \<longrightarrow> fst (json_convert buf num tok) = JSON_NUMBER)"
proof -
  have n: "(fst (json_convert buf num tok) = JSON_NUMBER)
      = num_accepted (before_break (tok_bytes buf tok))"
    by (simp only: json_convert_scan(1) [OF assms] num_scan_accepted)
  have z: "(fst (json_convert buf num tok) = JSON_NONE)
      = (\<not> num_accepted (before_break (tok_bytes buf tok)))"
    by (simp only: json_convert_scan(2) [OF assms] num_scan_accepted)
  have bad: "fst (json_convert buf num tok) = JSON_NONE"
    if "two_dots (before_break (tok_bytes buf tok)) \<or>
          dot_after_exp (before_break (tok_bytes buf tok)) \<or>
          no_transition (before_break (tok_bytes buf tok))"
  proof -
    from that have "\<not> num_accepted (before_break (tok_bytes buf tok))"
      by (auto simp add: num_accepted_def)
    then show ?thesis by (simp add: z)
  qed
  have wf: "fst (json_convert buf num tok) = JSON_NUMBER" if "wf_number (tok_bytes buf tok)"
  proof -
    from that have "num_scan False False (tok_bytes buf tok)" by (rule wf_number_scan)
    then show ?thesis by (simp add: json_convert_scan(1) [OF assms])
  qed
  show ?thesis
  proof (intro conjI impI)
    show "fst (json_convert buf num tok) = JSON_NUMBER
        \<longleftrightarrow> num_accepted (before_break (tok_bytes buf tok))" by (rule n)
    show "fst (json_convert buf num tok) = JSON_NONE
        \<longleftrightarrow> \<not> num_accepted (before_break (tok_bytes buf tok))" by (rule z)
  next
    assume "two_dots (before_break (tok_bytes buf tok)) \<or>
          dot_after_exp (before_break (tok_bytes buf tok)) \<or>
          no_transition (before_break (tok_bytes buf tok))"
    then show "fst (json_convert buf num tok) = JSON_NONE" by (rule bad)
  next
    assume "wf_number (tok_bytes buf tok)"
    then show "fst (json_convert buf num tok) = JSON_NUMBER" by (rule wf)
  qed
qed

theorem C5_json_convert_witness:
  "fst (json_convert ''15 '' 0 \<lparr>ttype = JSON_NUMBER, str = Some 0, len = 3, children = 0, sub = 0\<rparr>)
     = JSON_NUMBER \<and>
   fst (json_convert ''1 x.y.'' 0 \<lparr>ttype = JSON_NUMBER, str = Some 0, len = 6, children = 0, sub = 0\<rparr>)
     = JSON_NUMBER \<and>
   fst (json_convert ''1e2e3'' 0 \<lparr>ttype = JSON_NUMBER, str = Some 0, len = 5, children = 0, sub = 0\<rparr>)
     = JSON_NONE \<and>
   fst (json_convert ''1.2.3'' 0 \<lparr>ttype = JSON_NUMBER, str = Some 0, len = 5, children = 0, sub = 0\<rparr>)
     = JSON_NONE \<and>
   fst (json_convert ''1e5.0'' 0 \<lparr>ttype = JSON_NUMBER, str = Some 0, len = 5, children = 0, sub = 0\<rparr>)
     = JSON_NONE \<and>
   fst (json_convert ''12x'' 0 \<lparr>ttype = JSON_NUMBER, str = Some 0, len = 3, children = 0, sub = 0\<rparr>)
     = JSON_NONE \<and>
   fst (json_convert ''-1.5e+3'' 0 \<lparr>ttype = JSON_NUMBER, str = Some 0, len = 7, children = 0, sub = 0\<rparr>)
     = JSON_NUMBER"
proof -
  let ?t = "\<lambda>n. \<lparr>ttype = JSON_NUMBER, str = Some 0, len = n, children = 0, sub = 0\<rparr>"
  have b0: "tok_bytes ''15 '' (?t 3) = ''15 ''"
    by (simp add: tok_bytes_def bytes_eval)
  have b5: "tok_bytes ''1 x.y.'' (?t 6) = ''1 x.y.''"
    by (simp add: tok_bytes_def bytes_eval)
  have b6: "tok_bytes ''1e2e3'' (?t 5) = ''1e2e3''"
    by (simp add: tok_bytes_def bytes_eval)
  have b1: "tok_bytes ''1.2.3'' (?t 5) = ''1.2.3''"
    by (simp add: tok_bytes_def bytes_eval)
  have b2: "tok_bytes ''1e5.0'' (?t 5) = ''1e5.0''"
    by (simp add: tok_bytes_def bytes_eval)
  have b3: "tok_bytes ''12x'' (?t 3) = ''12x''"
    by (simp add: tok_bytes_def bytes_eval)
  have b4: "tok_bytes ''-1.5e+3'' (?t 7) = ''-1.5e+3''"
    by (simp add: tok_bytes_def bytes_eval)
  have w0: "num_accepted (before_break (tok_bytes ''15 '' (?t 3)))"
    unfolding b0
    by (simp add: num_accepted_def no_transition_def two_dots_def two_exps_def
        dot_after_exp_def is_exp_def before_break_def json_go_num_def)
  have w5: "num_accepted (before_break (tok_bytes ''1 x.y.'' (?t 6)))"
    unfolding b5
    by (simp add: num_accepted_def no_transition_def two_dots_def two_exps_def
        dot_after_exp_def is_exp_def before_break_def json_go_num_def)
  have w6: "\<not> num_accepted (before_break (tok_bytes ''1e2e3'' (?t 5)))"
    unfolding b6
    by (simp add: num_accepted_def no_transition_def two_dots_def two_exps_def
        dot_after_exp_def is_exp_def before_break_def json_go_num_def)
  have a: "two_dots (before_break (tok_bytes ''1.2.3'' (?t 5)))"
    unfolding b1 by (simp add: two_dots_def before_break_def json_go_num_def)
  have b: "dot_after_exp (before_break (tok_bytes ''1e5.0'' (?t 5)))"
    unfolding b2 by (simp add: dot_after_exp_def is_exp_def before_break_def json_go_num_def)
  have c: "no_transition (before_break (tok_bytes ''12x'' (?t 3)))"
    unfolding b3 by (simp add: no_transition_def before_break_def json_go_num_def)
  have d: "wf_number (tok_bytes ''-1.5e+3'' (?t 7))"
    unfolding b4
    by (simp add: wf_number_def wf_fraction_def wf_exponent_def is_exp_def is_digit_def)
  show ?thesis
    using C5_json_convert [of "?t 3" 0 "''15 ''" 0] C5_json_convert [of "?t 6" 0 "''1 x.y.''" 0]
      C5_json_convert [of "?t 5" 0 "''1e2e3''" 0]
      C5_json_convert [of "?t 5" 0 "''1.2.3''" 0] C5_json_convert [of "?t 5" 0 "''1e5.0''" 0]
      C5_json_convert [of "?t 3" 0 "''12x''" 0] C5_json_convert [of "?t 7" 0 "''-1.5e+3''" 0]
      w0 w5 w6 a b c d
    by simp
qed

section \<open>Bounded copy\<close>


lemma cpy_loop_at:
  "cpy_loop buf dst tok i siz k =
     (if i \<le> k \<and> k < siz then tok_byte buf tok (nat k) else dst k)"
proof (induction buf dst tok i siz rule: cpy_loop.induct)
  case (1 buf dst tok i siz)
  show ?case
  proof (cases "i < siz")
    case True
    then show ?thesis
      using "1.IH" by (subst cpy_loop.simps) (auto simp: fun_upd_def simp del: cpy_loop.simps)
  next
    case False
    then show ?thesis by (subst cpy_loop.simps) (auto simp del: cpy_loop.simps)
  qed
qed

text \<open>
  C8, as stated: \<open>json_cpy\<close> returns the number of bytes it copied. For the token
  \<open>abc\<close> and \<open>max = 2\<close> it copies one byte (\<open>a\<close>), writes the terminator at index 1,
  leaves index 2 alone, and returns 2.
\<close>

theorem C8_counterexample:
  "(case json_cpy ''abc'' (\<lambda>_. CHR ''x'') 2
           \<lparr>ttype = JSON_STRING, str = Some 0, len = 3, children = 0, sub = 0\<rparr> of
      (ret, dst) \<Rightarrow> map dst [0, 1, 2] = [CHR ''a'', CHR 0x00, CHR ''x''] \<and> ret = 2)"
  by (simp add: json_cpy_def cpy_loop_at tok_byte_def byte_at_def)

text \<open>
  C8, amended: for every token with a non-null \<open>str\<close> and \<open>len \<ge> 0\<close>, and
  \<open>max > 0\<close>, \<open>json_cpy\<close> copies the first \<open>min (max - 1) len\<close> bytes of the token
  (so at most \<open>max - 1\<close>), writes a NUL terminator after them, leaves the rest of the
  destination alone, and returns \<open>len\<close> when the token fits (\<open>len < max\<close>) and
  \<open>max\<close>, one more than the bytes copied, when the copy is truncated.
\<close>

theorem C8_json_cpy:
  assumes "0 < max'" and "str tok = Some p" and "0 \<le> len tok"
  shows "(case json_cpy buf dst max' tok of
      (ret, dst1) \<Rightarrow>
        (\<forall>k. 0 \<le> k \<and> k < min (max' - 1) (len tok) \<longrightarrow> dst1 k = byte_at buf (p + nat k)) \<and>
        dst1 (min (max' - 1) (len tok)) = CHR 0x00 \<and>
        (\<forall>k. k < 0 \<or> min (max' - 1) (len tok) < k \<longrightarrow> dst1 k = dst k) \<and>
        ret = (if len tok < max' then len tok else max'))"
  using assms
  by (auto simp: json_cpy_def Let_def cpy_loop_at tok_byte_def min_def simp del: cpy_loop.simps)

theorem C8_json_cpy_witness:
  "(case json_cpy ''abc'' (\<lambda>_. CHR ''x'') 2
           \<lparr>ttype = JSON_STRING, str = Some 0, len = 3, children = 0, sub = 0\<rparr> of
      (ret, dst) \<Rightarrow> dst 0 = CHR ''a'' \<and> dst 1 = CHR 0x00 \<and> dst 2 = CHR ''x'' \<and> ret = 2) \<and>
   (case json_cpy ''abc'' (\<lambda>_. CHR ''x'') 8
           \<lparr>ttype = JSON_STRING, str = Some 0, len = 3, children = 0, sub = 0\<rparr> of
      (ret, dst) \<Rightarrow> dst 0 = CHR ''a'' \<and> dst 2 = CHR ''c'' \<and> dst 3 = CHR 0x00 \<and>
        dst 4 = CHR ''x'' \<and> ret = 3)"
  using
    C8_json_cpy [of 2 "\<lparr>ttype = JSON_STRING, str = Some 0, len = 3, children = 0, sub = 0\<rparr>" 0
      "''abc''" "\<lambda>_. CHR ''x''"]
    C8_json_cpy [of 8 "\<lparr>ttype = JSON_STRING, str = Some 0, len = 3, children = 0, sub = 0\<rparr>" 0
      "''abc''" "\<lambda>_. CHR ''x''"]
  by (auto simp: byte_at_def split: prod.splits)

section \<open>The layout of loaded tokens\<close>

text \<open>
  The equations of the scan and of the loader are unfolded by hand from here on.
\<close>

declare read_loop.simps [simp del] json_load.simps [simp del] json_load_loop.simps [simp del]







































































end
